theory Spec2Isabelle
  imports Main "HOL-Library.Word"
begin

unbundle bit_operations_syntax

section \<open>JavaScript values\<close>

text \<open>
  The values that travel through the SDK as \<open>unknown\<close>: the JSON-like part of JavaScript,
  a \<open>Uint8Array\<close> (\<open>JBytes\<close>) and a built-in function reached through
  \<open>Object.prototype\<close> (\<open>JNative\<close>, by its name). A number is an integer from
  \<open>-2^53\<close> to \<open>2^53 - 1\<close>, read from the word with \<open>sint\<close>: each of them is a double,
  and \<open>String\<close> prints all its digits.
  A string is a list of code units below 256, so \<open>length\<close> is JavaScript's \<open>.length\<close>
  on such strings. An object is the association list of its own properties.
\<close>

datatype jsval =
    JUndefined
  | JNull
  | JBool bool
  | JNum "54 word"
  | JStr string
  | JArr "jsval list"
  | JObj "(string \<times> jsval) list"
  | JBytes "8 word list"
  | JNative string

section \<open>Session context store (src/src/init.ts, the tracing module)\<close>

record SessionContext =
  configKey :: string
  sessionId :: string

text \<open>
  \<open>AsyncLocalStorage\<close> stores are objects with identity: \<open>setSession\<close> mutates the
  object that \<open>getStore()\<close> returns, and everything running in the same scope shares it.
  A store is therefore an address into \<open>stores\<close>; \<open>current\<close> is the store of the
  execution that is running now (what \<open>sessionStorage.getStore()\<close> reads).
  The remaining fields are the module-level variables of the source.
\<close>

type_synonym ref = nat

record trace_state =
  stores :: "SessionContext list"
  current :: "ref option"
  fallbackSession :: "SessionContext option"
  apiKey :: "string option"
  baseUrl :: string
  initialized :: bool
  captureContent :: bool
  sdk :: bool

definition module_start :: trace_state where
  "module_start =
     \<lparr>stores = [], current = None, fallbackSession = None, apiKey = None,
      baseUrl = ''https://spans.fallom.com'', initialized = False,
      captureContent = True, sdk = False\<rparr>"

definition getStore :: "trace_state \<Rightarrow> SessionContext option" where
  "getStore st =
     (case current st of
        None \<Rightarrow> None
      | Some r \<Rightarrow> (if r < length (stores st) then Some (stores st ! r) else None))"

text \<open>\<open>setSession\<close>: the store of the running scope, if any, and then always the fallback.\<close>

definition setSession :: "string \<Rightarrow> string \<Rightarrow> trace_state \<Rightarrow> trace_state" where
  "setSession ck sid st =
     (let st1 =
        (case current st of
           None \<Rightarrow> st
         | Some r \<Rightarrow>
             (if r < length (stores st)
              then st\<lparr>stores := (stores st)[r := \<lparr>configKey = ck, sessionId = sid\<rparr>]\<rparr>
              else st))
      in st1\<lparr>fallbackSession := Some \<lparr>configKey = ck, sessionId = sid\<rparr>\<rparr>)"

text \<open>\<open>sessionStorage.getStore() || fallbackSession || undefined\<close>; an object is truthy.\<close>

definition getSession :: "trace_state \<Rightarrow> SessionContext option" where
  "getSession st =
     (case getStore st of
        Some c \<Rightarrow> Some c
      | None \<Rightarrow> fallbackSession st)"

definition clearSession :: "trace_state \<Rightarrow> trace_state" where
  "clearSession st = st\<lparr>fallbackSession := None\<rparr>"

text \<open>
  \<open>runWithSession\<close> is \<open>sessionStorage.run({configKey, sessionId}, fn)\<close>: a fresh store
  object becomes the current one while \<open>fn\<close> runs, and the store that was current
  before is current again when \<open>run\<close> returns. The result of \<open>fn\<close> is returned as it is.
\<close>

definition runWithSession ::
  "string \<Rightarrow> string \<Rightarrow> (trace_state \<Rightarrow> 'a \<times> trace_state) \<Rightarrow> trace_state \<Rightarrow> 'a \<times> trace_state" where
  "runWithSession ck sid fn st =
     (let saved = current st;
          r = length (stores st);
          entered = st\<lparr>stores := stores st @ [\<lparr>configKey = ck, sessionId = sid\<rparr>],
                       current := Some r\<rparr>;
          (res, st') = fn entered
      in (res, st'\<lparr>current := saved\<rparr>))"

subsection \<open>Initialisation\<close>



datatype error = NoApiKey | NotInitialized | NoSessionContext

text \<open>JavaScript's \<open>a || b\<close> on optional strings: the empty string is falsy.\<close>

definition truthy_str :: "string option \<Rightarrow> bool" where
  "truthy_str v = (case v of None \<Rightarrow> False | Some s \<Rightarrow> s \<noteq> [])"

definition js_or :: "string option \<Rightarrow> string option \<Rightarrow> string option" where
  "js_or a b = (if truthy_str a then a else b)"

definition js_or_default :: "string option \<Rightarrow> string \<Rightarrow> string" where
  "js_or_default a d = (case a of None \<Rightarrow> d | Some s \<Rightarrow> (if s = [] then d else s))"








subsection \<open>Custom metric spans\<close>

record span_options =
  so_configKey :: "string option"
  so_sessionId :: "string option"

record span_request =
  config_key :: string
  session_id :: string
  data :: "(string \<times> jsval) list"

text \<open>
  \<open>span\<close> either throws or hands one request to \<open>sendSpan\<close>, whose own failures are
  swallowed. The module state is not changed.
\<close>

definition span :: "(string \<times> jsval) list \<Rightarrow> span_options \<Rightarrow> trace_state \<Rightarrow> error + span_request" where
  "span d options st =
     (if \<not> initialized st then Inl NotInitialized
      else
        let ctx = getSession st;
            ck = js_or (so_configKey options) (map_option configKey ctx);
            sid = js_or (so_sessionId options) (map_option sessionId ctx)
        in if \<not> truthy_str ck \<or> \<not> truthy_str sid then Inl NoSessionContext
           else Inr \<lparr>config_key = js_or_default ck [], session_id = js_or_default sid [], data = d\<rparr>)"

section \<open>Strings and conversions\<close>

definition digit_char :: "nat \<Rightarrow> char" where
  "digit_char d = ''0123456789'' ! d"

function dec :: "nat \<Rightarrow> string" where
  "dec n = (if n < 10 then [digit_char n] else dec (n div 10) @ [digit_char (n mod 10)])"
  by pat_completeness auto
termination
  by (relation "measure (\<lambda>n. n)") auto

declare dec.simps [simp del]

definition startsWith :: "string \<Rightarrow> string \<Rightarrow> bool" where
  "startsWith s p = (take (length p) s = p)"

fun join :: "string \<Rightarrow> string list \<Rightarrow> string" where
  "join sep [] = []"
| "join sep [x] = x"
| "join sep (x # y # ys) = x @ sep @ join sep (y # ys)"

text \<open>\<open>String(v)\<close>. An array joins its elements with commas, \<open>null\<close> and \<open>undefined\<close>
  elements as the empty string.\<close>

fun toString :: "jsval \<Rightarrow> string" where
  "toString JUndefined = ''undefined''"
| "toString JNull = ''null''"
| "toString (JBool b) = (if b then ''true'' else ''false'')"
| "toString (JNum i) = (if sint i < 0 then ''-'' @ dec (nat (- sint i)) else dec (nat (sint i)))"
| "toString (JStr s) = s"
| "toString (JArr xs) =
     join '','' (map (\<lambda>x. if x = JNull \<or> x = JUndefined then [] else toString x) xs)"
| "toString (JObj kvs) = ''[object Object]''"
| "toString (JBytes bs) = join '','' (map (\<lambda>b. dec (unat b)) bs)"
| "toString (JNative name) = ''function '' @ name @ ''() { [native code] }''"

text \<open>JavaScript truthiness, \<open>a || b\<close>, and the optional property read \<open>v?.k\<close>.\<close>

fun truthy :: "jsval \<Rightarrow> bool" where
  "truthy JUndefined = False"
| "truthy JNull = False"
| "truthy (JBool b) = b"
| "truthy (JNum i) = (i \<noteq> 0)"
| "truthy (JStr s) = (s \<noteq> [])"
| "truthy _ = True"

definition jor :: "jsval \<Rightarrow> jsval \<Rightarrow> jsval" where
  "jor a b = (if truthy a then a else b)"

fun field :: "jsval \<Rightarrow> string \<Rightarrow> jsval" where
  "field (JObj kvs) k = (case map_of kvs k of None \<Rightarrow> JUndefined | Some v \<Rightarrow> v)"
| "field _ k = JUndefined"

section \<open>Redaction (shared-utils, src/unnamed/part_003)\<close>

text \<open>
  Both functions are \<open>JSON.stringify\<close> replacers: they receive a field name and the
  field's value and return the value to serialise. A \<open>Buffer\<close> reaches a replacer
  as the object \<open>{type: "Buffer", data: [...]}\<close>, a \<open>Uint8Array\<close> as itself.
\<close>

definition isBinary :: "jsval \<Rightarrow> bool" where
  "isBinary v =
     (case v of
        JBytes bs \<Rightarrow> True
      | JObj kvs \<Rightarrow> field v ''type'' = JStr ''Buffer''
      | _ \<Rightarrow> False)"

definition sanitizeForLogging :: "string \<Rightarrow> jsval \<Rightarrow> jsval" where
  "sanitizeForLogging key v =
     (if key = ''rawResponse'' \<or> key = ''rawCall'' then JStr ''[omitted]''
      else
        (case (case v of
                 JStr s \<Rightarrow>
                   (if startsWith s ''data:image/'' then Some (JStr ''[base64 image omitted]'')
                    else if length s > 10000
                    then Some (JStr (''[large string omitted: '' @ dec (length s) @ '' chars]''))
                    else None)
               | _ \<Rightarrow> None) of
           Some r \<Rightarrow> r
         | None \<Rightarrow> (if isBinary v then JStr ''[binary data omitted]'' else v)))"

definition contentKeys :: "string list" where
  "contentKeys =
     [''text'', ''content'', ''message'', ''messages'', ''object'', ''prompt'', ''system'',
      ''input'', ''output'', ''response'', ''toolCalls'', ''toolResults'', ''steps'',
      ''reasoning'', ''rawResponse'', ''rawCall'', ''body'', ''candidates'', ''parts'']"

text \<open>The placeholder for a denylisted field, where the source has one: a string, an
  array, any other non-null object. Every other value falls through to the general rules.\<close>

fun contentPlaceholder :: "jsval \<Rightarrow> jsval option" where
  "contentPlaceholder (JStr s) = Some (JStr (''[content omitted: '' @ dec (length s) @ '' chars]''))"
| "contentPlaceholder (JArr xs) = Some (JStr (''[content omitted: '' @ dec (length xs) @ '' items]''))"
| "contentPlaceholder (JObj kvs) = Some (JStr ''[content omitted]'')"
| "contentPlaceholder (JBytes bs) = Some (JStr ''[content omitted]'')"
| "contentPlaceholder _ = None"

definition sanitizeMetadataOnly :: "string \<Rightarrow> jsval \<Rightarrow> jsval" where
  "sanitizeMetadataOnly key v =
     (case (if key \<in> set contentKeys then contentPlaceholder v else None) of
        Some r \<Rightarrow> r
      | None \<Rightarrow>
        (case (case v of
                 JStr s \<Rightarrow>
                   (if startsWith s ''data:image/'' then Some (JStr ''[base64 image omitted]'')
                    else if length s > 1000
                    then Some (JStr (''[large string omitted: '' @ dec (length s) @ '' chars]''))
                    else None)
               | _ \<Rightarrow> None) of
           Some r \<Rightarrow> r
         | None \<Rightarrow> (if isBinary v then JStr ''[binary data omitted]'' else v)))"

section \<open>Prompt templates (replaceVariables, src/unnamed/part_005)\<close>

text \<open>The classes \<open>\w\<close> and \<open>\s\<close> of the pattern \<open>/\{\{(\s*\w+\s*)\}\}/g\<close>, on code units
  below 256. \<open>trim\<close> removes the same characters that \<open>\s\<close> matches.\<close>

definition isWordChar :: "char \<Rightarrow> bool" where
  "isWordChar c =
     (let n = (of_char c :: nat)
      in (48 \<le> n \<and> n \<le> 57) \<or> (65 \<le> n \<and> n \<le> 90) \<or> n = 95 \<or> (97 \<le> n \<and> n \<le> 122))"

definition isSpaceChar :: "char \<Rightarrow> bool" where
  "isSpaceChar c = ((of_char c :: nat) \<in> {9, 10, 11, 12, 13, 32, 160})"

definition trim :: "string \<Rightarrow> string" where
  "trim s = rev (dropWhile isSpaceChar (rev (dropWhile isSpaceChar s)))"

text \<open>
  One attempt to match the pattern at the head of the input: the captured group and the
  input after the match. The three classes and the brace are disjoint, so the greedy
  match is the only one.
\<close>

fun matchPlaceholder :: "string \<Rightarrow> (string \<times> string) option" where
  "matchPlaceholder (a # b # t) =
     (if a = CHR ''{'' \<and> b = CHR ''{'' then
        (let t1 = dropWhile isSpaceChar t;
             w = takeWhile isWordChar t1;
             t2 = dropWhile isWordChar t1;
             t3 = dropWhile isSpaceChar t2
         in if w = [] then None
            else (case t3 of
                    c # d # rest \<Rightarrow>
                      (if c = CHR ''}'' \<and> d = CHR ''}''
                       then Some (takeWhile isSpaceChar t @ w @ takeWhile isSpaceChar t2, rest)
                       else None)
                  | _ \<Rightarrow> None))
      else None)"
| "matchPlaceholder _ = None"

lemma matchPlaceholder_shorter:
  "matchPlaceholder s = Some (g, rest) \<Longrightarrow> length rest < length s"
proof (cases s rule: matchPlaceholder.cases)
  case (1 a b t)
  assume m: "matchPlaceholder s = Some (g, rest)"
  define t1 where "t1 = dropWhile isSpaceChar t"
  define t2 where "t2 = dropWhile isWordChar t1"
  define t3 where "t3 = dropWhile isSpaceChar t2"
  have le: "length t3 \<le> length t"
    using length_dropWhile_le [of isSpaceChar t] length_dropWhile_le [of isWordChar t1]
      length_dropWhile_le [of isSpaceChar t2]
    by (simp add: t1_def t2_def t3_def)
  from m 1 obtain c d where "t3 = c # d # rest"
    by (auto simp: Let_def t1_def t2_def t3_def split: if_splits list.splits)
  with le 1 show ?thesis by simp
qed simp_all

text \<open>\<open>String.prototype.replace\<close> with a global pattern and a replacer function: matches
  are found from left to right and never overlap.\<close>

function replacePlaceholders :: "(string \<Rightarrow> string \<Rightarrow> string) \<Rightarrow> string \<Rightarrow> string" where
  "replacePlaceholders f [] = []"
| "replacePlaceholders f (c # t) =
     (case matchPlaceholder (c # t) of
        Some (g, rest) \<Rightarrow> f (''{{'' @ g @ ''}}'') g @ replacePlaceholders f rest
      | None \<Rightarrow> c # replacePlaceholders f t)"
  by pat_completeness auto
termination
  by (relation "measure (\<lambda>(f, s). length s)")
     (auto dest: matchPlaceholder_shorter)

text \<open>
  \<open>key in variables\<close> and \<open>variables[key]\<close> look at the object's own properties and
  then at the properties it inherits from \<open>Object.prototype\<close>.
\<close>

definition objectPrototype :: "(string \<times> jsval) list" where
  "objectPrototype =
     [(''constructor'', JNative ''Object''),
      (''__defineGetter__'', JNative ''__defineGetter__''),
      (''__defineSetter__'', JNative ''__defineSetter__''),
      (''hasOwnProperty'', JNative ''hasOwnProperty''),
      (''__lookupGetter__'', JNative ''__lookupGetter__''),
      (''__lookupSetter__'', JNative ''__lookupSetter__''),
      (''isPrototypeOf'', JNative ''isPrototypeOf''),
      (''propertyIsEnumerable'', JNative ''propertyIsEnumerable''),
      (''toString'', JNative ''toString''),
      (''valueOf'', JNative ''valueOf''),
      (''__proto__'', JObj []),
      (''toLocaleString'', JNative ''toLocaleString'')]"

definition getProperty :: "(string \<times> jsval) list \<Rightarrow> string \<Rightarrow> jsval option" where
  "getProperty own key =
     (case map_of own key of
        Some v \<Rightarrow> Some v
      | None \<Rightarrow> map_of objectPrototype key)"

definition replaceVariables :: "string \<Rightarrow> (string \<times> jsval) list option \<Rightarrow> string" where
  "replaceVariables template variables =
     (case variables of
        None \<Rightarrow> template
      | Some vars \<Rightarrow>
          replacePlaceholders
            (\<lambda>match varName.
               (case getProperty vars (trim varName) of
                  Some v \<Rightarrow> toString v
                | None \<Rightarrow> match))
            template)"

section \<open>Session hashing (hashSessionId, src/unnamed/part_005)\<close>

text \<open>
  A session id is a JavaScript string, a sequence of UTF-16 code units.
  \<open>createHash("md5")\<close> makes a new hash object; \<open>update(sessionId)\<close> encodes the string
  as UTF-8 (a surrogate pair is one code point, a lone surrogate becomes U+FFFD) and
  appends the bytes to what the object has absorbed; \<open>digest()\<close> returns the MD5 digest
  (RFC 1321) of the absorbed bytes, a buffer of 16 bytes.
\<close>

type_synonym code_unit = "16 word"

type_synonym u32 = "32 word"

definition utf8_point :: "nat \<Rightarrow> nat list" where
  "utf8_point c =
     (if c < 0x80 then [c]
      else if c < 0x800 then [0xC0 + c div 64, 0x80 + c mod 64]
      else if c < 0x10000
      then [0xE0 + c div 4096, 0x80 + (c div 64) mod 64, 0x80 + c mod 64]
      else [0xF0 + c div 262144, 0x80 + (c div 4096) mod 64, 0x80 + (c div 64) mod 64,
            0x80 + c mod 64])"

definition scalar :: "nat \<Rightarrow> nat" where
  "scalar u = (if 0xD800 \<le> u \<and> u < 0xE000 then 0xFFFD else u)"

fun utf8_units :: "nat list \<Rightarrow> nat list" where
  "utf8_units [] = []"
| "utf8_units [u] = utf8_point (scalar u)"
| "utf8_units (u # v # rest) =
     (if 0xD800 \<le> u \<and> u < 0xDC00 \<and> 0xDC00 \<le> v \<and> v < 0xE000
      then utf8_point (0x10000 + (u - 0xD800) * 1024 + (v - 0xDC00)) @ utf8_units rest
      else utf8_point (scalar u) @ utf8_units (v # rest))"

definition utf8 :: "code_unit list \<Rightarrow> nat list" where
  "utf8 s = utf8_units (map unat s)"

definition md5_s :: "nat list" where
  "md5_s =
     [7, 12, 17, 22, 7, 12, 17, 22, 7, 12, 17, 22, 7, 12, 17, 22,
      5, 9, 14, 20, 5, 9, 14, 20, 5, 9, 14, 20, 5, 9, 14, 20,
      4, 11, 16, 23, 4, 11, 16, 23, 4, 11, 16, 23, 4, 11, 16, 23,
      6, 10, 15, 21, 6, 10, 15, 21, 6, 10, 15, 21, 6, 10, 15, 21]"

definition md5_K :: "u32 list" where
  "md5_K =
     [0xd76aa478, 0xe8c7b756, 0x242070db, 0xc1bdceee,
      0xf57c0faf, 0x4787c62a, 0xa8304613, 0xfd469501,
      0x698098d8, 0x8b44f7af, 0xffff5bb1, 0x895cd7be,
      0x6b901122, 0xfd987193, 0xa679438e, 0x49b40821,
      0xf61e2562, 0xc040b340, 0x265e5a51, 0xe9b6c7aa,
      0xd62f105d, 0x02441453, 0xd8a1e681, 0xe7d3fbc8,
      0x21e1cde6, 0xc33707d6, 0xf4d50d87, 0x455a14ed,
      0xa9e3e905, 0xfcefa3f8, 0x676f02d9, 0x8d2a4c8a,
      0xfffa3942, 0x8771f681, 0x6d9d6122, 0xfde5380c,
      0xa4beea44, 0x4bdecfa9, 0xf6bb4b60, 0xbebfbc70,
      0x289b7ec6, 0xeaa127fa, 0xd4ef3085, 0x04881d05,
      0xd9d4d039, 0xe6db99e5, 0x1fa27cf8, 0xc4ac5665,
      0xf4292244, 0x432aff97, 0xab9423a7, 0xfc93a039,
      0x655b59c3, 0x8f0ccc92, 0xffeff47d, 0x85845dd1,
      0x6fa87e4f, 0xfe2ce6e0, 0xa3014314, 0x4e0811a1,
      0xf7537e82, 0xbd3af235, 0x2ad7d2bb, 0xeb86d391]"

definition rotl32 :: "u32 \<Rightarrow> nat \<Rightarrow> u32" where
  "rotl32 x n = push_bit n x OR drop_bit (32 - n) x"

definition le_bytes4 :: "nat \<Rightarrow> nat list" where
  "le_bytes4 n =
     [n mod 256, (n div 256) mod 256, (n div 65536) mod 256, (n div 16777216) mod 256]"

definition md5_pad :: "nat list \<Rightarrow> nat list" where
  "md5_pad m =
     m @ [128] @ replicate ((119 - length m mod 64) mod 64) 0
       @ le_bytes4 ((8 * length m) mod 4294967296)
       @ le_bytes4 (((8 * length m) div 4294967296) mod 4294967296)"

fun le_words :: "nat list \<Rightarrow> u32 list" where
  "le_words (b0 # b1 # b2 # b3 # rest) =
     of_nat (b0 + 256 * (b1 + 256 * (b2 + 256 * b3))) # le_words rest"
| "le_words _ = []"

definition md5_step ::
  "u32 list \<Rightarrow> u32 \<times> u32 \<times> u32 \<times> u32 \<Rightarrow> nat \<Rightarrow> u32 \<times> u32 \<times> u32 \<times> u32" where
  "md5_step M v i =
     (case v of (A, B, C, D) \<Rightarrow>
        let (F, g) =
              (if i < 16 then ((B AND C) OR (NOT B AND D), i)
               else if i < 32 then ((D AND B) OR (NOT D AND C), (5 * i + 1) mod 16)
               else if i < 48 then (B XOR C XOR D, (3 * i + 5) mod 16)
               else (C XOR (B OR NOT D), (7 * i) mod 16));
            F' = F + A + md5_K ! i + M ! g
        in (D, B + rotl32 F' (md5_s ! i), B, C))"

function md5_rounds ::
  "u32 list \<Rightarrow> nat \<Rightarrow> u32 \<times> u32 \<times> u32 \<times> u32 \<Rightarrow> u32 \<times> u32 \<times> u32 \<times> u32" where
  "md5_rounds M i v = (if i < 64 then md5_rounds M (i + 1) (md5_step M v i) else v)"
  by pat_completeness auto
termination
  by (relation "measure (\<lambda>(M, i, v). 64 - i)") auto

declare md5_rounds.simps [simp del]

definition md5_block ::
  "u32 \<times> u32 \<times> u32 \<times> u32 \<Rightarrow> u32 list \<Rightarrow> u32 \<times> u32 \<times> u32 \<times> u32" where
  "md5_block h M =
     (case h of (a0, b0, c0, d0) \<Rightarrow>
        (case md5_rounds M 0 (a0, b0, c0, d0) of
           (A, B, C, D) \<Rightarrow> (a0 + A, b0 + B, c0 + C, d0 + D)))"

function md5_blocks ::
  "u32 \<times> u32 \<times> u32 \<times> u32 \<Rightarrow> u32 list \<Rightarrow> u32 \<times> u32 \<times> u32 \<times> u32" where
  "md5_blocks h ws =
     (if length ws < 16 then h else md5_blocks (md5_block h (take 16 ws)) (drop 16 ws))"
  by pat_completeness auto
termination
  by (relation "measure (\<lambda>(h, ws). length ws)") auto

declare md5_blocks.simps [simp del]

definition md5 :: "nat list \<Rightarrow> nat list" where
  "md5 m =
     (case md5_blocks (0x67452301, 0xefcdab89, 0x98badcfe, 0x10325476) (le_words (md5_pad m)) of
        (a, b, c, d) \<Rightarrow>
          le_bytes4 (unat a) @ le_bytes4 (unat b) @ le_bytes4 (unat c) @ le_bytes4 (unat d))"

text \<open>\<open>buf.readUInt32BE(0)\<close>; a buffer shorter than four bytes raises a RangeError.\<close>

fun readUInt32BE :: "nat list \<Rightarrow> nat option" where
  "readUInt32BE (b0 # b1 # b2 # b3 # rest) = Some (((b0 * 256 + b1) * 256 + b2) * 256 + b3)"
| "readUInt32BE _ = None"

text \<open>
  The hash objects a process has created, each with the bytes it has absorbed. A handle
  is the position of its object.
\<close>

type_synonym hash_heap = "nat list list"

definition createHash :: "hash_heap \<Rightarrow> nat \<times> hash_heap" where
  "createHash hp = (length hp, hp @ [[]])"

definition hash_update :: "nat \<Rightarrow> nat list \<Rightarrow> hash_heap \<Rightarrow> hash_heap" where
  "hash_update h bytes hp = (if h < length hp then hp[h := hp ! h @ bytes] else hp)"

definition hash_digest :: "nat \<Rightarrow> hash_heap \<Rightarrow> nat list" where
  "hash_digest h hp = (if h < length hp then md5 (hp ! h) else [])"

definition hashSessionId :: "code_unit list \<Rightarrow> hash_heap \<Rightarrow> nat option \<times> hash_heap" where
  "hashSessionId sid hp =
     (let (h, hp1) = createHash hp;
          hp2 = hash_update h (utf8 sid) hp1
      in (map_option (\<lambda>n. n mod 1000000) (readUInt32BE (hash_digest h hp2)), hp2))"

section \<open>Variant assignment\<close>

record Variant =
  variantIndex :: nat
  weight :: nat
  payload :: string

record AssignmentResult =
  ar_payload :: string
  ar_variantIndex :: "nat option"
  ar_fallback :: bool

text \<open>
  Modelled from the spec: the assignment function itself (the models and prompts modules)
  is not among the sources; only its hash is. Section 4.2: the bucket is the digest
  reduced modulo \<open>R = 1,000,000\<close>; the variants are walked in order, accumulating
  weight, and the variant whose cumulative-weight interval, normalised against the total
  weight and scaled to \<open>R\<close>, contains the bucket is selected; an empty snapshot, or
  any failure, resolves to the caller's fallback, tagged as such.
\<close>

fun pick :: "nat \<Rightarrow> nat \<Rightarrow> nat \<Rightarrow> Variant list \<Rightarrow> Variant option" where
  "pick b tot acc [] = None"
| "pick b tot acc (v # vs) =
     (if b * tot < (acc + weight v) * 1000000 then Some v
      else pick b tot (acc + weight v) vs)"

definition assign_bucket :: "nat option \<Rightarrow> Variant list \<Rightarrow> string \<Rightarrow> AssignmentResult" where
  "assign_bucket bucket V fallback =
     (case (case bucket of
              None \<Rightarrow> None
            | Some b \<Rightarrow> pick b (sum_list (map weight V)) 0 V) of
        None \<Rightarrow> \<lparr>ar_payload = fallback, ar_variantIndex = None, ar_fallback = True\<rparr>
      | Some v \<Rightarrow>
          \<lparr>ar_payload = payload v, ar_variantIndex = Some (variantIndex v), ar_fallback = False\<rparr>)"

text \<open>
  Modelled from the spec: what a call could depend on besides its arguments (section 3:
  call order, wall-clock time, process identity). A call is made in some process, at
  some time, after some number of earlier calls, which have left their hash objects
  behind; it hashes the subject id in that process, walks the snapshot and counts itself.
\<close>

record process =
  pid :: nat
  clock :: nat
  calls :: nat
  hash_objects :: hash_heap

definition assign_call ::
  "process \<Rightarrow> code_unit list \<Rightarrow> Variant list \<Rightarrow> string \<Rightarrow> AssignmentResult \<times> process" where
  "assign_call p s V fallback =
     (let (bucket, hp) = hashSessionId s (hash_objects p)
      in (assign_bucket bucket V fallback, p\<lparr>calls := calls p + 1, hash_objects := hp\<rparr>))"

section \<open>Span attributes of the AI SDK wrappers (src/unnamed/part_002, part_003)\<close>

text \<open>
  An attribute value is a literal, or the string \<open>JSON.stringify(v)\<close> (kept as \<open>Json v\<close>),
  or \<open>JSON.stringify(v, sanitizeMetadataOnly)\<close>. Assigning \<open>attributes[k] = v\<close>
  replaces the value of an existing key and appends a new key. Trace and span ids,
  times and the prompt context of a span come from collaborators and are left out.
\<close>

datatype attr = Lit jsval | Json jsval | MetadataJson jsval

fun setAttr :: "string \<Rightarrow> attr \<Rightarrow> (string \<times> attr) list \<Rightarrow> (string \<times> attr) list" where
  "setAttr k v [] = [(k, v)]"
| "setAttr k v ((k', v') # rest) =
     (if k' = k then (k, v) # rest else (k', v') # setAttr k v rest)"

definition setAttrIf ::
  "bool \<Rightarrow> string \<Rightarrow> attr \<Rightarrow> (string \<times> attr) list \<Rightarrow> (string \<times> attr) list" where
  "setAttrIf c k v as = (if c then setAttr k v as else as)"

record span_record =
  sr_name :: string
  sr_kind :: string
  sr_model :: jsval
  sr_status :: string
  sr_error_message :: jsval
  sr_attributes :: "(string \<times> attr) list"

definition objectKeys :: "jsval \<Rightarrow> string list" where
  "objectKeys v =
     (case v of
        JObj kvs \<Rightarrow> map fst kvs
      | JArr xs \<Rightarrow> map dec [0..<length xs]
      | JStr s \<Rightarrow> map dec [0..<length s]
      | JBytes bs \<Rightarrow> map dec [0..<length bs]
      | _ \<Rightarrow> [])"

definition paramsModelId :: "jsval \<Rightarrow> jsval" where
  "paramsModelId params =
     jor (field (field params ''model'') ''modelId'')
         (JStr (toString (jor (field params ''model'') (JStr ''unknown''))))"

subsection \<open>generateText\<close>

definition stepSummary :: "jsval \<Rightarrow> jsval" where
  "stepSummary step =
     JObj [(''stepType'', field step ''stepType''), (''text'', field step ''text''),
           (''finishReason'', field step ''finishReason''),
           (''toolCalls'', field step ''toolCalls''),
           (''toolResults'', field step ''toolResults''), (''usage'', field step ''usage'')]"

text \<open>
  \<open>result?.steps?.map(...)\<close>: \<open>undefined\<close> for a missing value and the mapped array for
  an array. A typed array has \<open>map\<close> too: the callback's objects are converted to the
  element type, which gives zeros. Any other value has no \<open>map\<close>, and the call throws
  the engine's TypeError (\<open>Inl\<close>).
\<close>

definition mapSteps :: "jsval \<Rightarrow> jsval \<Rightarrow> jsval + jsval" where
  "mapSteps typeError steps =
     (case steps of
        JUndefined \<Rightarrow> Inr JUndefined
      | JNull \<Rightarrow> Inr JUndefined
      | JArr xs \<Rightarrow> Inr (JArr (map stepSummary xs))
      | JBytes bs \<Rightarrow> Inr (JBytes (replicate (length bs) 0))
      | _ \<Rightarrow> Inl typeError)"

definition generateText_request :: "jsval \<Rightarrow> jsval \<Rightarrow> jsval" where
  "generateText_request params modelId =
     JObj [(''prompt'', field params ''prompt''), (''messages'', field params ''messages''),
           (''system'', field params ''system''), (''model'', modelId),
           (''tools'',
              (if truthy (field params ''tools'')
               then JArr (map JStr (objectKeys (field params ''tools''))) else JUndefined)),
           (''maxSteps'', field params ''maxSteps'')]"

definition generateText_response :: "jsval \<Rightarrow> jsval \<Rightarrow> jsval" where
  "generateText_response result steps =
     JObj [(''text'', field result ''text''), (''finishReason'', field result ''finishReason''),
           (''responseId'', field (field result ''response'') ''id''),
           (''modelId'', field (field result ''response'') ''modelId''),
           (''toolCalls'', field result ''toolCalls''),
           (''toolResults'', field result ''toolResults''),
           (''steps'', steps),
           (''responseMessages'', field result ''responseMessages'')]"

text \<open>The attributes built in the \<open>try\<close> block, or the error thrown while building
  them.\<close>

definition generateText_attributes ::
  "jsval \<Rightarrow> bool \<Rightarrow> jsval \<Rightarrow> jsval \<Rightarrow> jsval \<Rightarrow> jsval + (string \<times> attr) list" where
  "generateText_attributes typeError capture params result modelId =
     (let base = [(''fallom.sdk_version'', Lit (JStr ''2'')),
                  (''fallom.method'', Lit (JStr ''generateText''))];
          content =
            (if capture then
               (case mapSteps typeError (field result ''steps'') of
                  Inl err \<Rightarrow> Inl err
                | Inr steps \<Rightarrow>
                    Inr (setAttr ''fallom.raw.response'' (Json (generateText_response result steps))
                           (setAttr ''fallom.raw.request''
                              (Json (generateText_request params modelId)) base)))
             else Inr base)
      in map_sum id
           (\<lambda>as.
              setAttrIf (truthy (field result ''experimental_providerMetadata''))
                ''fallom.raw.providerMetadata''
                (Json (field result ''experimental_providerMetadata''))
                (setAttrIf (truthy (field result ''usage'')) ''fallom.raw.usage''
                   (Json (field result ''usage'')) as))
           content)"

text \<open>The span sent from the \<open>catch\<close> block.\<close>

definition generateText_error_span :: "jsval \<Rightarrow> jsval \<Rightarrow> span_record" where
  "generateText_error_span params err =
     \<lparr>sr_name = ''generateText'', sr_kind = ''llm'', sr_model = paramsModelId params,
      sr_status = ''ERROR'', sr_error_message = field err ''message'',
      sr_attributes =
        [(''fallom.sdk_version'', Lit (JStr ''2'')),
         (''fallom.method'', Lit (JStr ''generateText'')),
         (''fallom.raw.request'',
            Json (JObj [(''prompt'', field params ''prompt''),
                        (''messages'', field params ''messages''),
                        (''system'', field params ''system''),
                        (''model'', paramsModelId params)]))]\<rparr>"

text \<open>
  The span of one wrapped \<open>generateText\<close> call, if any: \<open>outcome\<close> is the rejection
  (\<open>Inl\<close>) or the result (\<open>Inr\<close>) of the underlying call, \<open>arg0\<close> its first argument,
  \<open>typeError\<close> the error the engine throws for a call of something that is no function.
\<close>

definition generateText_span ::
  "jsval \<Rightarrow> bool \<Rightarrow> bool \<Rightarrow> jsval \<Rightarrow> jsval + jsval \<Rightarrow> span_record option" where
  "generateText_span typeError isInitialized capture arg0 outcome =
     (if \<not> isInitialized then None
      else
        let params = jor arg0 (JObj []) in
        (case outcome of
           Inl err \<Rightarrow> Some (generateText_error_span params err)
         | Inr result \<Rightarrow>
             (let modelId = jor (field (field result ''response'') ''modelId'')
                                (paramsModelId params)
              in case generateText_attributes typeError capture params result modelId of
                   Inl err \<Rightarrow> Some (generateText_error_span params err)
                 | Inr as \<Rightarrow>
                     Some \<lparr>sr_name = ''generateText'', sr_kind = ''llm'', sr_model = modelId,
                           sr_status = ''OK'', sr_error_message = JUndefined,
                           sr_attributes = as\<rparr>)))"

subsection \<open>streamObject\<close>

record ProviderInfo =
  pi_provider :: jsval
  pi_providerId :: jsval
  pi_baseUrl :: jsval
  pi_aiSdkVersion :: jsval
  pi_raw :: jsval

definition providerInfoToAttributes :: "ProviderInfo \<Rightarrow> (string \<times> attr) list" where
  "providerInfoToAttributes info =
     setAttrIf (truthy (pi_raw info) \<and> length (objectKeys (pi_raw info)) > 0)
       ''fallom.provider_raw'' (Json (pi_raw info))
       (setAttrIf (truthy (pi_aiSdkVersion info)) ''fallom.ai_sdk_version'' (Lit (pi_aiSdkVersion info))
          (setAttrIf (truthy (pi_baseUrl info)) ''fallom.base_url'' (Lit (pi_baseUrl info))
             (setAttrIf (truthy (pi_providerId info)) ''fallom.provider_id'' (Lit (pi_providerId info))
                (setAttrIf (truthy (pi_provider info)) ''fallom.provider'' (Lit (pi_provider info))
                   []))))"

text \<open>The values the wrapper awaits before it builds the span: each is what the promise
  resolved to, \<open>null\<close> where it was rejected.\<close>

record stream_values =
  rawUsage :: jsval
  responseObject :: jsval
  finishReason :: jsval
  providerMetadata :: jsval

definition streamObject_attributes ::
  "bool \<Rightarrow> jsval \<Rightarrow> jsval \<Rightarrow> ProviderInfo \<Rightarrow> stream_values \<Rightarrow> (string \<times> attr) list" where
  "streamObject_attributes capture params result info vals =
     (let base = foldl (\<lambda>as (k, v). setAttr k v as)
                   [(''fallom.sdk_version'', Lit (JStr ''2'')),
                    (''fallom.method'', Lit (JStr ''streamObject'')),
                    (''fallom.is_streaming'', Lit (JBool True))]
                   (providerInfoToAttributes info);
          request =
            JObj [(''prompt'', field params ''prompt''), (''messages'', field params ''messages''),
                  (''system'', field params ''system''), (''model'', paramsModelId params),
                  (''schema'',
                     (if truthy (field params ''schema'') then JStr ''provided'' else JUndefined))];
          response =
            JObj [(''object'', responseObject vals), (''finishReason'', finishReason vals)];
          content =
            (if capture then
               setAttrIf (truthy (responseObject vals) \<or> truthy (finishReason vals))
                 ''fallom.raw.response'' (Json response)
                 (setAttr ''fallom.raw.request'' (Json request) base)
             else base)
      in setAttr ''fallom.raw.metadata'' (MetadataJson result)
           (setAttrIf (truthy (providerMetadata vals)) ''fallom.raw.providerMetadata''
              (Json (providerMetadata vals))
              (setAttrIf (truthy (rawUsage vals)) ''fallom.raw.usage'' (Json (rawUsage vals))
                 content)))"

text \<open>A span is built only after initialisation and when the result has a \<open>usage\<close>
  promise.\<close>

definition streamObject_span ::
  "bool \<Rightarrow> bool \<Rightarrow> jsval \<Rightarrow> jsval \<Rightarrow> ProviderInfo \<Rightarrow> stream_values \<Rightarrow> span_record option" where
  "streamObject_span isInitialized capture arg0 result info vals =
     (if \<not> isInitialized \<or> \<not> truthy (field result ''usage'') then None
      else
        let params = jor arg0 (JObj []) in
        Some \<lparr>sr_name = ''streamObject'', sr_kind = ''llm'', sr_model = paramsModelId params,
              sr_status = ''OK'', sr_error_message = JUndefined,
              sr_attributes = streamObject_attributes capture params result info vals\<rparr>)"

text \<open>The attributes of the error spans of the three sibling wrappers.\<close>

definition sibling_error_attributes :: "string \<Rightarrow> (string \<times> attr) list" where
  "sibling_error_attributes method =
     (if method = ''generateObject''
      then [(''fallom.sdk_version'', Lit (JStr ''2'')), (''fallom.method'', Lit (JStr method))]
      else [(''fallom.sdk_version'', Lit (JStr ''2'')), (''fallom.method'', Lit (JStr method)),
            (''fallom.is_streaming'', Lit (JBool True))])"

section \<open>Programs over the context store\<close>

text \<open>
  Synchronous code that uses the store: reads (each read is an observation), writes,
  clears and nested \<open>runWithSession\<close> calls whose body is again such code.
\<close>

datatype cmd = CGet | CSet string string | CClear | CRun string string "cmd list"

lemma runWithSession_cong [fundef_cong]:
  "ck = ck' \<Longrightarrow> sid = sid' \<Longrightarrow> st = st' \<Longrightarrow> (\<And>s. f s = g s)
     \<Longrightarrow> runWithSession ck sid f st = runWithSession ck' sid' g st'"
  by (simp add: runWithSession_def)

fun exec :: "cmd \<Rightarrow> trace_state \<Rightarrow> SessionContext option list \<times> trace_state"
  and execs :: "cmd list \<Rightarrow> trace_state \<Rightarrow> SessionContext option list \<times> trace_state" where
  "exec CGet st = ([getSession st], st)"
| "exec (CSet ck sid) st = ([], setSession ck sid st)"
| "exec CClear st = ([], clearSession st)"
| "exec (CRun ck sid body) st = runWithSession ck sid (execs body) st"
| "execs [] st = ([], st)"
| "execs (c # cs) st =
     (let (seen1, st1) = exec c st;
          (seen2, st2) = execs cs st1
      in (seen1 @ seen2, st2))"

text \<open>
  The same with the consumer \<open>span\<close> among the statements, and with exceptions: a
  statement that throws ends the block it is in, and \<open>runWithSession\<close> passes the
  exception of its body on after it has restored the store of its caller.
\<close>

datatype stmt =
    SGet
  | SSet string string
  | SClear
  | SRun string string "stmt list"
  | SSpan "(string \<times> jsval) list" span_options

fun run_stmt :: "stmt \<Rightarrow> trace_state \<Rightarrow> (error + SessionContext option list) \<times> trace_state"
  and run_stmts :: "stmt list \<Rightarrow> trace_state \<Rightarrow> (error + SessionContext option list) \<times> trace_state" where
  "run_stmt SGet st = (Inr [getSession st], st)"
| "run_stmt (SSet ck sid) st = (Inr [], setSession ck sid st)"
| "run_stmt SClear st = (Inr [], clearSession st)"
| "run_stmt (SRun ck sid body) st = runWithSession ck sid (run_stmts body) st"
| "run_stmt (SSpan d options) st =
     (case span d options st of Inl e \<Rightarrow> (Inl e, st) | Inr request \<Rightarrow> (Inr [], st))"
| "run_stmts [] st = (Inr [], st)"
| "run_stmts (c # cs) st =
     (case run_stmt c st of
        (Inl e, st1) \<Rightarrow> (Inl e, st1)
      | (Inr seen1, st1) \<Rightarrow>
          (case run_stmts cs st1 of
             (Inl e, st2) \<Rightarrow> (Inl e, st2)
           | (Inr seen2, st2) \<Rightarrow> (Inr (seen1 @ seen2), st2)))"

text \<open>The statements made of store operations only, at every depth.\<close>

fun store_only :: "stmt \<Rightarrow> bool" where
  "store_only (SRun ck sid body) = list_all store_only body"
| "store_only (SSpan d options) = False"
| "store_only _ = True"

text \<open>
  The identifier a span is recorded under, in the words of the documentation of
  \<open>span\<close>: the explicit option when one is supplied, otherwise the one of the session
  context; the empty string stands for "none".
\<close>

definition chosen :: "string option \<Rightarrow> string option \<Rightarrow> string" where
  "chosen explicit ambient =
     (case explicit of
        Some s \<Rightarrow> (if s \<noteq> [] then s else (case ambient of None \<Rightarrow> [] | Some a \<Rightarrow> a))
      | None \<Rightarrow> (case ambient of None \<Rightarrow> [] | Some a \<Rightarrow> a))"

section \<open>Interleaved asynchronous chains\<close>

text \<open>
  Scheduling is single-threaded and cooperative: between two suspension points one
  continuation runs alone. A continuation belongs to the asynchronous chain that created
  it, and \<open>AsyncLocalStorage\<close> makes the store of that chain current while the
  continuation runs. An event is one store operation of a continuation, with the store
  its chain carries (\<open>None\<close> outside every scope); a schedule is any interleaving of
  events. \<open>ORun\<close> enters a nested scope, whose own continuations are later events that
  carry the new store.
\<close>

datatype op = OGet | OSet string string | OClear | ORun string string

type_synonym event = "ref option \<times> op"

definition resume :: "ref option \<Rightarrow> trace_state \<Rightarrow> trace_state" where
  "resume c st = st\<lparr>current := c\<rparr>"

fun perform :: "op \<Rightarrow> trace_state \<Rightarrow> SessionContext option list \<times> trace_state" where
  "perform OGet st = ([getSession st], st)"
| "perform (OSet ck sid) st = ([], setSession ck sid st)"
| "perform OClear st = ([], clearSession st)"
| "perform (ORun ck sid) st = runWithSession ck sid (\<lambda>s. ([], s)) st"

fun schedule :: "event list \<Rightarrow> trace_state \<Rightarrow> (ref option \<times> SessionContext option) list" where
  "schedule [] st = []"
| "schedule ((c, a) # es) st =
     (let (vs, st') = perform a (resume c st)
      in map (Pair c) vs @ schedule es st')"

text \<open>What the chain that carries store \<open>c\<close> reads, in order, and its own operations.\<close>

definition seen :: "ref option \<Rightarrow> event list \<Rightarrow> trace_state \<Rightarrow> SessionContext option list" where
  "seen c es st = map snd (filter (\<lambda>cv. fst cv = c) (schedule es st))"

definition own :: "ref option \<Rightarrow> event list \<Rightarrow> op list" where
  "own c es = map snd (filter (\<lambda>e. fst e = c) es)"

text \<open>
  Entering a scope whose body is an asynchronous function: the body's continuations
  keep the store that was current when the body started.
\<close>

definition enter :: "string \<Rightarrow> string \<Rightarrow> trace_state \<Rightarrow> ref option \<times> trace_state" where
  "enter ck sid st = runWithSession ck sid (\<lambda>s. (current s, s)) st"

text \<open>
  The reference behaviour of a scope that runs alone on its own context: a read returns
  the context, a write replaces it, and nothing else is visible.
\<close>

fun alone :: "SessionContext \<Rightarrow> op list \<Rightarrow> SessionContext option list" where
  "alone ctx [] = []"
| "alone ctx (OGet # ops) = Some ctx # alone ctx ops"
| "alone ctx (OSet ck sid # ops) = alone \<lparr>configKey = ck, sessionId = sid\<rparr> ops"
| "alone ctx (OClear # ops) = alone ctx ops"
| "alone ctx (ORun ck sid # ops) = alone ctx ops"

section \<open>Properties of the context store\<close>

subsection \<open>Nesting\<close>

lemma exec_frame:
  "current (snd (exec c st)) = current st \<and>
   length (stores st) \<le> length (stores (snd (exec c st))) \<and>
   (\<forall>r<length (stores st). Some r \<noteq> current st \<longrightarrow> stores (snd (exec c st)) ! r = stores st ! r)"
  and execs_frame:
  "current (snd (execs cs st)) = current st \<and>
   length (stores st) \<le> length (stores (snd (execs cs st))) \<and>
   (\<forall>r<length (stores st). Some r \<noteq> current st \<longrightarrow> stores (snd (execs cs st)) ! r = stores st ! r)"
proof (induction c st and cs st rule: exec_execs.induct)
  case (1 st)
  then show ?case by simp
next
  case (2 ck sid st)
  then show ?case by (auto simp: setSession_def split: option.splits)
next
  case (3 st)
  then show ?case by (simp add: clearSession_def)
next
  case (4 ck sid body st)
  define entered where
    "entered = st\<lparr>stores := stores st @ [\<lparr>configKey = ck, sessionId = sid\<rparr>],
                  current := Some (length (stores st))\<rparr>"
  have ih: "current (snd (execs body entered)) = current entered \<and>
     length (stores entered) \<le> length (stores (snd (execs body entered))) \<and>
     (\<forall>r<length (stores entered). Some r \<noteq> current entered \<longrightarrow>
        stores (snd (execs body entered)) ! r = stores entered ! r)"
    using 4 [of entered] .
  have res: "snd (exec (CRun ck sid body) st) = (snd (execs body entered))\<lparr>current := current st\<rparr>"
    by (simp add: runWithSession_def entered_def Let_def split: prod.splits)
  show ?case
    using ih unfolding res by (auto simp: entered_def nth_append)
next
  case (5 st)
  then show ?case by simp
next
  case (6 c cs st)
  have step: "snd (execs (c # cs) st) = snd (execs cs (snd (exec c st)))"
    by (simp add: Let_def split: prod.splits)
  have a: "current (snd (exec c st)) = current st \<and>
   length (stores st) \<le> length (stores (snd (exec c st))) \<and>
   (\<forall>r<length (stores st). Some r \<noteq> current st \<longrightarrow> stores (snd (exec c st)) ! r = stores st ! r)"
    using 6(1) .
  have b: "current (snd (execs cs (snd (exec c st)))) = current (snd (exec c st)) \<and>
   length (stores (snd (exec c st))) \<le> length (stores (snd (execs cs (snd (exec c st))))) \<and>
   (\<forall>r<length (stores (snd (exec c st))). Some r \<noteq> current (snd (exec c st)) \<longrightarrow>
      stores (snd (execs cs (snd (exec c st)))) ! r = stores (snd (exec c st)) ! r)"
    using 6(2) [OF refl, of "fst (exec c st)" "snd (exec c st)"] by simp
  show ?case unfolding step using a b by auto
qed

text \<open>
  Claim C3. Scopes nest and restore. When \<open>run\<close> is entered with the context
  \<open>(ckA, sidA)\<close> and, inside its body, \<open>run\<close> is entered again with \<open>(ckB, sidB)\<close>,
  a read at the start of the inner body returns the inner context, and a read in the
  outer body after the inner \<open>run\<close> has returned yields the outer context again,
  whatever else the inner body did (reads, writes, clears, further nested scopes) and
  whatever the state was before.
\<close>

theorem scopes_nest_and_restore:
  "fst (exec (CRun ckA sidA [CRun ckB sidB [CGet], CGet]) st)
     = [Some \<lparr>configKey = ckB, sessionId = sidB\<rparr>, Some \<lparr>configKey = ckA, sessionId = sidA\<rparr>] \<and>
   (\<exists>mid. fst (exec (CRun ckA sidA [CRun ckB sidB (CGet # body), CGet]) st)
      = Some \<lparr>configKey = ckB, sessionId = sidB\<rparr> # mid
          @ [Some \<lparr>configKey = ckA, sessionId = sidA\<rparr>])"
proof -
  define n where "n = length (stores st)"
  define ctxA where "ctxA = \<lparr>configKey = ckA, sessionId = sidA\<rparr>"
  define ctxB where "ctxB = \<lparr>configKey = ckB, sessionId = sidB\<rparr>"
  define inner where "inner = st\<lparr>stores := stores st @ [ctxA, ctxB], current := Some (Suc n)\<rparr>"
  have inner_get: "getSession inner = Some ctxB"
    by (simp add: getSession_def getStore_def inner_def n_def nth_append)
  have run: "fst (exec (CRun ckA sidA [CRun ckB sidB (CGet # rest), CGet]) st)
      = getSession inner # fst (execs rest inner)
          @ [getSession ((snd (execs rest inner))\<lparr>current := Some n\<rparr>)]" for rest
    by (simp add: runWithSession_def Let_def inner_def n_def ctxA_def ctxB_def
          split: prod.splits)
  have outer_get: "getSession ((snd (execs rest inner))\<lparr>current := Some n\<rparr>) = Some ctxA" for rest
  proof -
    have "Suc (Suc n) \<le> length (stores (snd (execs rest inner))) \<and>
        stores (snd (execs rest inner)) ! n = ctxA"
      using execs_frame [of rest inner]
      by (auto simp: inner_def n_def nth_append)
    then show ?thesis by (simp add: getSession_def getStore_def)
  qed
  have "fst (exec (CRun ckA sidA [CRun ckB sidB [CGet], CGet]) st) = [Some ctxB, Some ctxA]"
    unfolding run using inner_get outer_get [of "[]"] by simp
  moreover have "fst (exec (CRun ckA sidA [CRun ckB sidB (CGet # body), CGet]) st)
      = Some ctxB # fst (execs body inner) @ [Some ctxA]"
    unfolding run using inner_get outer_get [of body] by simp
  ultimately show ?thesis
    unfolding ctxA_def ctxB_def by blast
qed

subsection \<open>What a write changes\<close>

text \<open>
  Against claim C4 as stated: with a scope active, \<open>setSession\<close> does change the
  process-wide fallback slot.
\<close>

theorem setSession_in_scope_counterexample:
  "getStore (module_start\<lparr>stores := [\<lparr>configKey = ''a'', sessionId = ''s1''\<rparr>], current := Some 0\<rparr>)
     = Some \<lparr>configKey = ''a'', sessionId = ''s1''\<rparr> \<and>
   fallbackSession
     (setSession ''b'' ''s2''
        (module_start\<lparr>stores := [\<lparr>configKey = ''a'', sessionId = ''s1''\<rparr>], current := Some 0\<rparr>))
     \<noteq> fallbackSession
         (module_start\<lparr>stores := [\<lparr>configKey = ''a'', sessionId = ''s1''\<rparr>], current := Some 0\<rparr>)"
  by (simp add: module_start_def getStore_def setSession_def)

text \<open>
  Claim C4, amended. \<open>set(configKey, sessionId)\<close> always overwrites the process-wide
  fallback slot with the new pair. When an ambient scope is active it also sets that
  scope's \<open>configKey\<close> and \<open>sessionId\<close>, and the store of every other scope is left
  as it was; when no scope is active no store changes.
\<close>

theorem setSession_effect:
  "fallbackSession (setSession ck sid st) = Some \<lparr>configKey = ck, sessionId = sid\<rparr> \<and>
   (getStore st \<noteq> None \<longrightarrow>
      getStore (setSession ck sid st) = Some \<lparr>configKey = ck, sessionId = sid\<rparr> \<and>
      (\<forall>r. Some r \<noteq> current st \<longrightarrow> stores (setSession ck sid st) ! r = stores st ! r)) \<and>
   (getStore st = None \<longrightarrow> stores (setSession ck sid st) = stores st)"
  by (auto simp: setSession_def getStore_def split: option.splits if_splits)

theorem setSession_effect_witness:
  "fallbackSession
     (setSession ''b'' ''s2''
        (module_start\<lparr>stores := [\<lparr>configKey = ''a'', sessionId = ''s1''\<rparr>,
                                 \<lparr>configKey = ''c'', sessionId = ''s3''\<rparr>], current := Some 0\<rparr>))
     = Some \<lparr>configKey = ''b'', sessionId = ''s2''\<rparr> \<and>
   getStore
     (setSession ''b'' ''s2''
        (module_start\<lparr>stores := [\<lparr>configKey = ''a'', sessionId = ''s1''\<rparr>,
                                 \<lparr>configKey = ''c'', sessionId = ''s3''\<rparr>], current := Some 0\<rparr>))
     = Some \<lparr>configKey = ''b'', sessionId = ''s2''\<rparr> \<and>
   stores
     (setSession ''b'' ''s2''
        (module_start\<lparr>stores := [\<lparr>configKey = ''a'', sessionId = ''s1''\<rparr>,
                                 \<lparr>configKey = ''c'', sessionId = ''s3''\<rparr>], current := Some 0\<rparr>)) ! 1
     = \<lparr>configKey = ''c'', sessionId = ''s3''\<rparr> \<and>
   getStore module_start = None \<and>
   stores (setSession ''b'' ''s2'' module_start) = stores module_start"
proof -
  let ?st = "module_start\<lparr>stores := [\<lparr>configKey = ''a'', sessionId = ''s1''\<rparr>,
                                 \<lparr>configKey = ''c'', sessionId = ''s3''\<rparr>], current := Some 0\<rparr>"
  have a: "getStore ?st \<noteq> None" by (simp add: getStore_def module_start_def)
  have b: "Some (1::nat) \<noteq> current ?st" by (simp add: module_start_def)
  have c: "getStore module_start = None" by (simp add: getStore_def module_start_def)
  from setSession_effect [of "''b''" "''s2''" ?st] a b
    setSession_effect [of "''b''" "''s2''" module_start] c
  show ?thesis by (simp add: module_start_def)
qed

subsection \<open>Absence of a context\<close>

lemma store_only_never_fails:
  "store_only s \<Longrightarrow> \<exists>obs. fst (run_stmt s st) = Inr obs"
  and store_only_block_never_fails:
  "list_all store_only ss \<Longrightarrow> \<exists>obs. fst (run_stmts ss st) = Inr obs"
proof (induction s st and ss st rule: run_stmt_run_stmts.induct)
  case (4 ck sid body st)
  define entered where
    "entered = st\<lparr>stores := stores st @ [\<lparr>configKey = ck, sessionId = sid\<rparr>],
                  current := Some (length (stores st))\<rparr>"
  have "fst (run_stmt (SRun ck sid body) st) = fst (run_stmts body entered)"
    by (simp add: runWithSession_def entered_def Let_def split: prod.splits)
  with 4 show ?case by simp
next
  case (7 c cs st)
  from 7(3) have c: "store_only c" and cs: "list_all store_only cs" by simp_all
  from 7(1) [OF c] obtain o1 where o1: "fst (run_stmt c st) = Inr o1" by blast
  obtain st1 where r1: "run_stmt c st = (Inr o1, st1)"
    using o1 by (cases "run_stmt c st") simp
  from 7(2) [OF r1 [symmetric] refl cs] obtain o2 where "fst (run_stmts cs st1) = Inr o2"
    by blast
  then obtain st2 where "run_stmts cs st1 = (Inr o2, st2)"
    by (cases "run_stmts cs st1") simp
  with r1 show ?case by simp
qed simp_all

text \<open>
  Against claim C8 as stated: after initialisation, with no scope, an empty fallback slot
  and no explicit identifiers, \<open>span\<close> throws.
\<close>

theorem span_without_context_counterexample:
  "initialized (module_start\<lparr>apiKey := Some ''key'', initialized := True, sdk := True\<rparr>) \<and>
   getSession (module_start\<lparr>apiKey := Some ''key'', initialized := True, sdk := True\<rparr>) = None \<and>
   span [(''outlier_score'', JNum 1)] \<lparr>so_configKey = None, so_sessionId = None\<rparr>
     (module_start\<lparr>apiKey := Some ''key'', initialized := True, sdk := True\<rparr>)
     = Inl NoSessionContext"
  by (simp add: module_start_def span_def getSession_def getStore_def js_or_def truthy_str_def)

lemma span_chosen:
  "initialized st \<Longrightarrow>
   span d options st =
     (if chosen (so_configKey options) (map_option configKey (getSession st)) = [] \<or>
         chosen (so_sessionId options) (map_option sessionId (getSession st)) = []
      then Inl NoSessionContext
      else Inr \<lparr>config_key = chosen (so_configKey options) (map_option configKey (getSession st)),
                session_id = chosen (so_sessionId options) (map_option sessionId (getSession st)),
                data = d\<rparr>)"
  by (auto simp: span_def chosen_def js_or_def js_or_default_def truthy_str_def Let_def
        split: option.splits)

text \<open>
  Claim C8, amended. No store operation (\<open>run\<close>, \<open>set\<close>, \<open>get\<close>, \<open>clear\<close>) can fail:
  code made of them alone, nested to any depth, never throws, in any state; and a read
  outside every scope with an empty fallback slot returns "absent". The consumer
  \<open>span\<close>, however, treats absence as an error. Before initialisation it throws "not
  initialised". After initialisation it takes each of \<open>configKey\<close> and \<open>sessionId\<close>
  from the explicit option when that is supplied and non-empty, and otherwise from the
  ambient or fallback context; it throws "No session context" exactly when one of the two
  is missing or empty, and otherwise records the span under them. In particular: with
  no context and no explicit identifiers it throws; with both explicit identifiers it
  records the span even when no context is set; with a context that has both and no
  explicit identifiers it records the span under the context's.
\<close>

theorem span_needs_context:
  "(store_only s \<longrightarrow> (\<exists>obs. fst (run_stmt s st) = Inr obs)) \<and>
   (current st = None \<and> fallbackSession st = None \<longrightarrow> getSession st = None) \<and>
   (\<not> initialized st \<longrightarrow> span d options st = Inl NotInitialized) \<and>
   (initialized st \<longrightarrow>
      span d options st =
        (if chosen (so_configKey options) (map_option configKey (getSession st)) = [] \<or>
            chosen (so_sessionId options) (map_option sessionId (getSession st)) = []
         then Inl NoSessionContext
         else Inr \<lparr>config_key = chosen (so_configKey options) (map_option configKey (getSession st)),
                   session_id = chosen (so_sessionId options) (map_option sessionId (getSession st)),
                   data = d\<rparr>)) \<and>
   (initialized st \<and> getSession st = None \<and>
      so_configKey options = None \<and> so_sessionId options = None
      \<longrightarrow> span d options st = Inl NoSessionContext) \<and>
   (initialized st \<and> so_configKey options = Some ck \<and> so_sessionId options = Some sid \<and>
      ck \<noteq> [] \<and> sid \<noteq> []
      \<longrightarrow> span d options st = Inr \<lparr>config_key = ck, session_id = sid, data = d\<rparr>) \<and>
   (initialized st \<and> getSession st = Some c \<and> configKey c \<noteq> [] \<and> sessionId c \<noteq> [] \<and>
      so_configKey options = None \<and> so_sessionId options = None
      \<longrightarrow> span d options st
            = Inr \<lparr>config_key = configKey c, session_id = sessionId c, data = d\<rparr>)"
proof -
  have a: "store_only s \<longrightarrow> (\<exists>obs. fst (run_stmt s st) = Inr obs)"
    using store_only_never_fails by blast
  have b: "current st = None \<and> fallbackSession st = None \<longrightarrow> getSession st = None"
    by (simp add: getSession_def getStore_def)
  have c: "\<not> initialized st \<longrightarrow> span d options st = Inl NotInitialized"
    by (simp add: span_def)
  have e: "initialized st \<and> getSession st = None \<and>
      so_configKey options = None \<and> so_sessionId options = None
      \<longrightarrow> span d options st = Inl NoSessionContext"
    by (simp add: span_chosen chosen_def)
  have f: "initialized st \<and> so_configKey options = Some ck \<and> so_sessionId options = Some sid \<and>
      ck \<noteq> [] \<and> sid \<noteq> []
      \<longrightarrow> span d options st = Inr \<lparr>config_key = ck, session_id = sid, data = d\<rparr>"
    by (simp add: span_chosen chosen_def)
  have g: "initialized st \<and> getSession st = Some c \<and> configKey c \<noteq> [] \<and> sessionId c \<noteq> [] \<and>
      so_configKey options = None \<and> so_sessionId options = None
      \<longrightarrow> span d options st
            = Inr \<lparr>config_key = configKey c, session_id = sessionId c, data = d\<rparr>"
    by (simp add: span_chosen chosen_def)
  from a b c span_chosen [of st d options] e f g show ?thesis by blast
qed

theorem span_needs_context_witness:
  "fst (run_stmt (SRun ''agent'' ''s1'' [SGet, SSet ''other'' ''s2'', SRun ''inner'' ''s3'' [SClear, SGet], SGet])
          module_start)
     = Inr [Some \<lparr>configKey = ''agent'', sessionId = ''s1''\<rparr>,
            Some \<lparr>configKey = ''inner'', sessionId = ''s3''\<rparr>,
            Some \<lparr>configKey = ''other'', sessionId = ''s2''\<rparr>] \<and>
   getSession module_start = None \<and>
   span [] \<lparr>so_configKey = None, so_sessionId = None\<rparr> module_start = Inl NotInitialized \<and>
   span [] \<lparr>so_configKey = None, so_sessionId = None\<rparr>
     (module_start\<lparr>initialized := True\<rparr>) = Inl NoSessionContext \<and>
   span [] \<lparr>so_configKey = Some ''agent'', so_sessionId = Some ''s1''\<rparr>
     (module_start\<lparr>initialized := True\<rparr>)
     = Inr \<lparr>config_key = ''agent'', session_id = ''s1'', data = []\<rparr> \<and>
   span [] \<lparr>so_configKey = Some ''explicit'', so_sessionId = None\<rparr>
     (module_start\<lparr>initialized := True,
        fallbackSession := Some \<lparr>configKey = ''agent'', sessionId = ''s1''\<rparr>\<rparr>)
     = Inr \<lparr>config_key = ''explicit'', session_id = ''s1'', data = []\<rparr> \<and>
   span [] \<lparr>so_configKey = None, so_sessionId = None\<rparr>
     (module_start\<lparr>initialized := True,
        fallbackSession := Some \<lparr>configKey = ''agent'', sessionId = ''s1''\<rparr>\<rparr>)
     = Inr \<lparr>config_key = ''agent'', session_id = ''s1'', data = []\<rparr>"
proof -
  let ?prog = "SRun ''agent'' ''s1'' [SGet, SSet ''other'' ''s2'', SRun ''inner'' ''s3'' [SClear, SGet], SGet]"
  let ?none = "\<lparr>so_configKey = None, so_sessionId = None\<rparr>"
  let ?both = "\<lparr>so_configKey = Some ''agent'', so_sessionId = Some ''s1''\<rparr>"
  let ?one = "\<lparr>so_configKey = Some ''explicit'', so_sessionId = None\<rparr>"
  let ?s1 = "module_start\<lparr>initialized := True\<rparr>"
  let ?s2 = "module_start\<lparr>initialized := True,
        fallbackSession := Some \<lparr>configKey = ''agent'', sessionId = ''s1''\<rparr>\<rparr>"
  have p: "store_only ?prog" by simp
  have run: "fst (run_stmt ?prog module_start)
     = Inr [Some \<lparr>configKey = ''agent'', sessionId = ''s1''\<rparr>,
            Some \<lparr>configKey = ''inner'', sessionId = ''s3''\<rparr>,
            Some \<lparr>configKey = ''other'', sessionId = ''s2''\<rparr>]"
    by (simp add: runWithSession_def module_start_def getSession_def getStore_def
          setSession_def clearSession_def)
  have m: "current module_start = None \<and> fallbackSession module_start = None"
    "\<not> initialized module_start"
    by (simp_all add: module_start_def)
  have i: "initialized ?s1" "initialized ?s2" by simp_all
  have g1: "getSession ?s1 = None"
    by (simp add: getSession_def getStore_def module_start_def)
  have g2: "getSession ?s2 = Some \<lparr>configKey = ''agent'', sessionId = ''s1''\<rparr>"
    by (simp add: getSession_def getStore_def module_start_def)
  from span_needs_context [of ?prog module_start "[]" ?none "''agent''" "''s1''" "\<lparr>configKey = ''agent'', sessionId = ''s1''\<rparr>"]
    span_needs_context [of ?prog ?s1 "[]" ?none "''agent''" "''s1''" "\<lparr>configKey = ''agent'', sessionId = ''s1''\<rparr>"]
    span_needs_context [of ?prog ?s1 "[]" ?both "''agent''" "''s1''" "\<lparr>configKey = ''agent'', sessionId = ''s1''\<rparr>"]
    span_needs_context [of ?prog ?s2 "[]" ?one "''agent''" "''s1''" "\<lparr>configKey = ''agent'', sessionId = ''s1''\<rparr>"]
    span_needs_context [of ?prog ?s2 "[]" ?none "''agent''" "''s1''" "\<lparr>configKey = ''agent'', sessionId = ''s1''\<rparr>"]
    p run m i g1 g2
  show ?thesis by (simp add: chosen_def)
qed


subsection \<open>Isolation of interleaved scopes\<close>

lemma perform_frame:
  assumes "perform a (resume c st) = (vs, st')" and "r < length (stores st)"
  shows "r < length (stores st') \<and>
         (c \<noteq> Some r \<longrightarrow> stores st' ! r = stores st ! r) \<and>
         (c = Some r \<longrightarrow>
            vs = (case a of OGet \<Rightarrow> [Some (stores st ! r)] | _ \<Rightarrow> []) \<and>
            stores st' ! r =
              (case a of OSet ck sid \<Rightarrow> \<lparr>configKey = ck, sessionId = sid\<rparr> | _ \<Rightarrow> stores st ! r))"
  using assms
  by (cases a)
     (auto simp: resume_def getSession_def getStore_def setSession_def clearSession_def
        runWithSession_def nth_append split: option.splits if_splits)

lemma seen_Cons:
  "seen x ((c, a) # es) st =
     (if c = x then fst (perform a (resume c st)) else [])
       @ seen x es (snd (perform a (resume c st)))"
  by (simp add: seen_def Let_def comp_def split: prod.splits)

lemma schedule_isolated:
  "r < length (stores st) \<Longrightarrow> seen (Some r) es st = alone (stores st ! r) (own (Some r) es)"
proof (induction es arbitrary: st)
  case Nil
  then show ?case by (simp add: seen_def own_def)
next
  case (Cons e es)
  obtain c a where e: "e = (c, a)" by (cases e)
  obtain vs st' where p: "perform a (resume c st) = (vs, st')" by (cases "perform a (resume c st)")
  note fr = perform_frame [OF p Cons.prems]
  have ih: "seen (Some r) es st' = alone (stores st' ! r) (own (Some r) es)"
    using Cons.IH [of st'] fr by simp
  have s: "seen (Some r) (e # es) st = (if c = Some r then vs else []) @ seen (Some r) es st'"
    unfolding e seen_Cons p by simp
  have o: "own (Some r) (e # es) = (if c = Some r then [a] else []) @ own (Some r) es"
    by (simp add: own_def e)
  show ?case
  proof (cases "c = Some r")
    case True
    with fr ih show ?thesis
      unfolding s o by (cases a) simp_all
  next
    case False
    with fr ih show ?thesis
      unfolding s o by simp
  qed
qed

text \<open>
  Claim C2. Two scopes entered by \<open>runWithSession\<close> with their own contexts are
  isolated under every interleaving. Whatever the schedule of store operations of the
  two asynchronous chains, of nested scopes and of unscoped callers, the reads of each
  chain are exactly the reads of that chain running alone on its own context: the
  context it was entered with, as updated by the chain's own writes. Neither chain
  observes the context of the other at any point.
\<close>

theorem scopes_isolated:
  assumes "enter ckA sidA st0 = (a, st1)" and "enter ckB sidB st1 = (b, st2)"
  shows "a \<noteq> b \<and>
         seen a es st2 = alone \<lparr>configKey = ckA, sessionId = sidA\<rparr> (own a es) \<and>
         seen b es st2 = alone \<lparr>configKey = ckB, sessionId = sidB\<rparr> (own b es)"
proof -
  define n where "n = length (stores st0)"
  from assms have a: "a = Some n" and b: "b = Some (Suc n)"
    and st2: "stores st2 = stores st0 @ [\<lparr>configKey = ckA, sessionId = sidA\<rparr>,
                                          \<lparr>configKey = ckB, sessionId = sidB\<rparr>]"
    by (auto simp: enter_def runWithSession_def n_def)
  have "seen (Some n) es st2 = alone (stores st2 ! n) (own (Some n) es)"
    by (rule schedule_isolated) (simp add: st2 n_def)
  moreover have "seen (Some (Suc n)) es st2 = alone (stores st2 ! Suc n) (own (Some (Suc n)) es)"
    by (rule schedule_isolated) (simp add: st2 n_def)
  ultimately show ?thesis
    by (simp add: a b st2 n_def nth_append)
qed

theorem scopes_isolated_witness:
  "enter ''agentA'' ''s1'' module_start
     = (Some 0, module_start\<lparr>stores := [\<lparr>configKey = ''agentA'', sessionId = ''s1''\<rparr>]\<rparr>) \<and>
   enter ''agentB'' ''s2'' (module_start\<lparr>stores := [\<lparr>configKey = ''agentA'', sessionId = ''s1''\<rparr>]\<rparr>)
     = (Some 1, module_start\<lparr>stores := [\<lparr>configKey = ''agentA'', sessionId = ''s1''\<rparr>,
                                           \<lparr>configKey = ''agentB'', sessionId = ''s2''\<rparr>]\<rparr>) \<and>
   seen (Some 0)
     [(Some 0, OGet), (Some 1, OSet ''other'' ''s9''), (None, OSet ''global'' ''s0''),
      (Some 0, OGet), (Some 1, OGet), (None, OClear), (Some 0, OGet)]
     (module_start\<lparr>stores := [\<lparr>configKey = ''agentA'', sessionId = ''s1''\<rparr>,
                               \<lparr>configKey = ''agentB'', sessionId = ''s2''\<rparr>]\<rparr>)
     = [Some \<lparr>configKey = ''agentA'', sessionId = ''s1''\<rparr>,
        Some \<lparr>configKey = ''agentA'', sessionId = ''s1''\<rparr>,
        Some \<lparr>configKey = ''agentA'', sessionId = ''s1''\<rparr>] \<and>
   seen (Some 1)
     [(Some 0, OGet), (Some 1, OSet ''other'' ''s9''), (None, OSet ''global'' ''s0''),
      (Some 0, OGet), (Some 1, OGet), (None, OClear), (Some 0, OGet)]
     (module_start\<lparr>stores := [\<lparr>configKey = ''agentA'', sessionId = ''s1''\<rparr>,
                               \<lparr>configKey = ''agentB'', sessionId = ''s2''\<rparr>]\<rparr>)
     = [Some \<lparr>configKey = ''other'', sessionId = ''s9''\<rparr>]"
proof -
  have h1: "enter ''agentA'' ''s1'' module_start
     = (Some 0, module_start\<lparr>stores := [\<lparr>configKey = ''agentA'', sessionId = ''s1''\<rparr>]\<rparr>)"
    by (simp add: enter_def runWithSession_def module_start_def)
  have h2: "enter ''agentB'' ''s2'' (module_start\<lparr>stores := [\<lparr>configKey = ''agentA'', sessionId = ''s1''\<rparr>]\<rparr>)
     = (Some 1, module_start\<lparr>stores := [\<lparr>configKey = ''agentA'', sessionId = ''s1''\<rparr>,
                                           \<lparr>configKey = ''agentB'', sessionId = ''s2''\<rparr>]\<rparr>)"
    by (simp add: enter_def runWithSession_def module_start_def)
  from scopes_isolated [OF h1 h2,
      of "[(Some 0, OGet), (Some 1, OSet ''other'' ''s9''), (None, OSet ''global'' ''s0''),
      (Some 0, OGet), (Some 1, OGet), (None, OClear), (Some 0, OGet)]"] h1 h2
  show ?thesis by (simp add: own_def)
qed

subsection \<open>Initialisation\<close>







section \<open>Properties of the assignment hash\<close>

lemma hashSessionId_bucket:
  "fst (hashSessionId s hp) = map_option (\<lambda>n. n mod 1000000) (readUInt32BE (md5 (utf8 s)))"
  by (simp add: hashSessionId_def createHash_def hash_update_def hash_digest_def nth_append)

lemma md5_digest_length: "length (md5 m) = 16"
  by (simp add: md5_def le_bytes4_def split: prod.splits)

lemma hashSessionId_total: "\<exists>b. b < 1000000 \<and> (\<forall>hp. fst (hashSessionId s hp) = Some b)"
proof -
  obtain a b c d where "md5_blocks (0x67452301, 0xefcdab89, 0x98badcfe, 0x10325476)
      (le_words (md5_pad (utf8 s))) = (a, b, c, d)"
    by (metis prod_cases4)
  then show ?thesis
    by (simp add: hashSessionId_bucket md5_def le_bytes4_def)
qed

lemma pick_selects:
  "acc * 1000000 \<le> b * tot \<Longrightarrow> b * tot < (acc + sum_list (map weight vs)) * 1000000
     \<Longrightarrow> \<exists>v\<in>set vs. pick b tot acc vs = Some v"
proof (induction vs arbitrary: acc)
  case Nil
  then show ?case by simp
next
  case (Cons v vs)
  show ?case
  proof (cases "b * tot < (acc + weight v) * 1000000")
    case True
    then show ?thesis by simp
  next
    case False
    then have "(acc + weight v) * 1000000 \<le> b * tot" by simp
    moreover from Cons.prems(2)
    have "b * tot < (acc + weight v + sum_list (map weight vs)) * 1000000"
      by (simp add: add.assoc)
    ultimately obtain u where "u \<in> set vs" "pick b tot (acc + weight v) vs = Some u"
      using Cons.IH [of "acc + weight v"] by blast
    with False show ?thesis by simp
  qed
qed

lemma assign_selects_variant:
  assumes "0 < sum_list (map weight V)" and "b < 1000000"
  shows "\<exists>v\<in>set V. assign_bucket (Some b) V fallback
           = \<lparr>ar_payload = payload v, ar_variantIndex = Some (variantIndex v),
              ar_fallback = False\<rparr>"
proof -
  from assms have "b * sum_list (map weight V) < (0 + sum_list (map weight V)) * 1000000"
    by simp
  from pick_selects [OF _ this] obtain v
    where "v \<in> set V" "pick b (sum_list (map weight V)) 0 V = Some v" by auto
  then show ?thesis by (auto simp: assign_bucket_def)
qed

lemma assign_call_result:
  "fst (assign_call p s V fallback)
     = assign_bucket (map_option (\<lambda>n. n mod 1000000) (readUInt32BE (md5 (utf8 s)))) V fallback"
  using hashSessionId_bucket [of s "hash_objects p"]
  by (simp add: assign_call_def case_prod_beta)

lemma single_variant:
  "fst (assign_call p s [\<lparr>variantIndex = i, weight = Suc w, payload = a\<rparr>] fallback)
     = \<lparr>ar_payload = a, ar_variantIndex = Some i, ar_fallback = False\<rparr>"
proof -
  obtain b where b: "b < 1000000" "fst (hashSessionId s (hash_objects p)) = Some b"
    using hashSessionId_total by blast
  from b(1) have "b * Suc w < 1000000 * Suc w"
    by (rule mult_less_mono1) simp
  then have "b * Suc w < Suc w * 1000000"
    by (simp only: mult.commute)
  with b(2) show ?thesis
    by (simp add: assign_call_def assign_bucket_def case_prod_beta del: mult_Suc mult_Suc_right)
qed

lemma le_words_zeros: "le_words (replicate (4 * k) 0 @ rest) = replicate k 0 @ le_words rest"
proof (induction k)
  case 0
  then show ?case by simp
next
  case (Suc k)
  have "4 * Suc k = Suc (Suc (Suc (Suc (4 * k))))" by simp
  then show ?case using Suc by (simp only: replicate_Suc append_Cons le_words.simps) simp
qed

lemma md5_blocks_single:
  "md5_blocks h [w0, w1, w2, w3, w4, w5, w6, w7, w8, w9, w10, w11, w12, w13, w14, w15]
     = md5_block h [w0, w1, w2, w3, w4, w5, w6, w7, w8, w9, w10, w11, w12, w13, w14, w15]"
  by (simp add: md5_blocks.simps)

text \<open>The session id \<open>a\<close>.\<close>

lemma md5_pad_a:
  "le_words (md5_pad (utf8 [0x61])) = [32865, 0, 0, 0, 0, 0, 0, 0, 0, 0, 0, 0, 0, 0, 8, 0]"
proof -
  have r: "replicate 54 (0::nat) = 0 # 0 # replicate 52 0"
    by (simp add: numeral_eq_Suc)
  have z: "replicate 13 (0::u32) = [0, 0, 0, 0, 0, 0, 0, 0, 0, 0, 0, 0, 0]"
    by (simp add: numeral_eq_Suc)
  have lz: "le_words (replicate 52 0 @ rest) = replicate 13 0 @ le_words rest" for rest
    using le_words_zeros [of 13 rest] by simp
  have "md5_pad (utf8 [0x61]) = 97 # 128 # 0 # 0 # replicate 52 0 @ [8, 0, 0, 0, 0, 0, 0, 0]"
    by (simp add: md5_pad_def utf8_def utf8_point_def scalar_def le_bytes4_def r)
  then have "le_words (md5_pad (utf8 [0x61])) = 32865 # replicate 13 0 @ [8, 0]"
    by (simp add: lz)
  then show ?thesis by (simp only: z append.simps)
qed

lemma md5_block_a:
  "md5_block (0x67452301, 0xefcdab89, 0x98badcfe, 0x10325476)
     [32865, 0, 0, 0, 0, 0, 0, 0, 0, 0, 0, 0, 0, 0, 8, 0]
   = (0xb975c10c, 0xa8b6f1c0, 0xe299c331, 0x61267769)"
  by (simp add: md5_block_def md5_rounds.simps md5_step_def md5_K_def md5_s_def rotl32_def)

lemma md5_a:
  "md5 (utf8 [0x61])
     = [0x0c, 0xc1, 0x75, 0xb9, 0xc0, 0xf1, 0xb6, 0xa8, 0x31, 0xc3, 0x99, 0xe2, 0x69, 0x77, 0x26, 0x61]"
  by (simp add: md5_def md5_pad_a md5_blocks_single md5_block_a le_bytes4_def)

text \<open>A session id with a two-byte, a three-byte and a four-byte character (the last one
  a surrogate pair): e acute, the euro sign and U+1F600.\<close>

lemma utf8_mixed:
  "utf8 [0xE9, 0x20AC, 0xD83D, 0xDE00] = [0xC3, 0xA9, 0xE2, 0x82, 0xAC, 0xF0, 0x9F, 0x98, 0x80]"
  by (simp add: utf8_def utf8_point_def scalar_def)

lemma md5_pad_mixed:
  "le_words (md5_pad (utf8 [0xE9, 0x20AC, 0xD83D, 0xDE00]))
     = [2195892675, 2560618668, 32896, 0, 0, 0, 0, 0, 0, 0, 0, 0, 0, 0, 72, 0]"
proof -
  have r: "replicate 46 (0::nat) = 0 # 0 # replicate 44 0"
    by (simp add: numeral_eq_Suc)
  have z: "replicate 11 (0::u32) = [0, 0, 0, 0, 0, 0, 0, 0, 0, 0, 0]"
    by (simp add: numeral_eq_Suc)
  have lz: "le_words (replicate 44 0 @ rest) = replicate 11 0 @ le_words rest" for rest
    using le_words_zeros [of 11 rest] by simp
  have "md5_pad (utf8 [0xE9, 0x20AC, 0xD83D, 0xDE00])
      = 0xC3 # 0xA9 # 0xE2 # 0x82 # 0xAC # 0xF0 # 0x9F # 0x98 # 0x80 # 128 # 0 # 0
          # replicate 44 0 @ [72, 0, 0, 0, 0, 0, 0, 0]"
    by (simp add: md5_pad_def utf8_mixed le_bytes4_def r)
  then have "le_words (md5_pad (utf8 [0xE9, 0x20AC, 0xD83D, 0xDE00]))
      = 2195892675 # 2560618668 # 32896 # replicate 11 0 @ [72, 0]"
    by (simp add: lz)
  then show ?thesis by (simp only: z append.simps)
qed

lemma md5_block_mixed:
  "md5_block (0x67452301, 0xefcdab89, 0x98badcfe, 0x10325476)
     [2195892675, 2560618668, 32896, 0, 0, 0, 0, 0, 0, 0, 0, 0, 0, 0, 72, 0]
   = (0x9fa3073b, 0xd7c50aef, 0x5e5721ef, 0x82a41573)"
  by (simp add: md5_block_def md5_rounds.simps md5_step_def md5_K_def md5_s_def rotl32_def)

lemma md5_mixed:
  "md5 (utf8 [0xE9, 0x20AC, 0xD83D, 0xDE00])
     = [0x3b, 0x07, 0xa3, 0x9f, 0xef, 0x0a, 0xc5, 0xd7, 0xef, 0x21, 0x57, 0x5e, 0x73, 0x15, 0xa4, 0x82]"
  by (simp add: md5_def md5_pad_mixed md5_blocks_single md5_block_mixed le_bytes4_def)

text \<open>
  Claim C1. Assignment is deterministic. For every subject id and snapshot, a call
  returns the same result (variant index and payload) in every process, at every time
  and after any history of earlier calls and hash objects; in particular two calls, one
  after the other, return identical results. The hash it buckets by (MD5 digest of the
  UTF-8 bytes, first four bytes read big-endian, reduced modulo 1,000,000) never throws
  and is a function of the session id alone with values below 1,000,000: the bucket of
  \<open>a\<close> is 5177 and that of the three-character id above is 356383, as MD5 gives them.
  A snapshot with a single variant of positive weight always selects that variant.
\<close>

theorem assignment_deterministic:
  "fst (assign_call p1 s V fallback) = fst (assign_call p2 s V fallback) \<and>
   fst (assign_call (snd (assign_call p1 s V fallback)) s V fallback)
     = fst (assign_call p1 s V fallback) \<and>
   (\<exists>b. b < 1000000 \<and> (\<forall>hp. fst (hashSessionId s hp) = Some b)) \<and>
   fst (hashSessionId [0x61] hp1) = Some 5177 \<and>
   fst (hashSessionId [0xE9, 0x20AC, 0xD83D, 0xDE00] hp2) = Some 356383 \<and>
   fst (assign_call p1 s [\<lparr>variantIndex = i, weight = Suc w, payload = a\<rparr>] fallback)
     = \<lparr>ar_payload = a, ar_variantIndex = Some i, ar_fallback = False\<rparr>"
proof -
  have "fst (hashSessionId [0x61] hp1) = Some 5177"
    by (simp add: hashSessionId_bucket md5_a)
  moreover have "fst (hashSessionId [0xE9, 0x20AC, 0xD83D, 0xDE00] hp2) = Some 356383"
    by (simp add: hashSessionId_bucket md5_mixed)
  ultimately show ?thesis
    using hashSessionId_total [of s] single_variant [of p1 s i w a fallback]
    by (simp add: assign_call_result)
qed

section \<open>Properties of redaction\<close>

lemma not_image_replicate:
  "\<not> startsWith (replicate n (CHR ''x'')) ''data:image/''"
proof
  assume "startsWith (replicate n (CHR ''x'')) ''data:image/''"
  then have "CHR ''d'' \<in> set (take (length ''data:image/'') (replicate n (CHR ''x'')))"
    unfolding startsWith_def by (simp del: take_replicate)
  then have "CHR ''d'' \<in> set (replicate n (CHR ''x''))"
    by (rule in_set_takeD)
  then show False by simp
qed

text \<open>
  Against claim C6 as stated: the full-content profile does look at the field name.
\<close>

theorem full_content_field_name_counterexample:
  "sanitizeForLogging ''rawResponse'' (JStr ''ok'') \<noteq> sanitizeForLogging ''note'' (JStr ''ok'')"
  by (simp add: sanitizeForLogging_def startsWith_def isBinary_def)

text \<open>
  Claim C6, amended. Under the full-content profile the fields named \<open>rawResponse\<close>
  and \<open>rawCall\<close> are always replaced by \<open>"[omitted]"\<close>. For every other field name:
  a string that starts with \<open>data:image/\<close> is replaced by the fixed placeholder
  \<open>"[base64 image omitted]"\<close>, any other string longer than 10,000 characters by
  \<open>"[large string omitted: n chars]"\<close> with its length \<open>n\<close>, a shorter one is kept, a
  binary payload is replaced by \<open>"[binary data omitted]"\<close>, and the result does not
  depend on which of these field names it is.
\<close>

theorem full_content_redaction:
  "sanitizeForLogging ''rawResponse'' v = JStr ''[omitted]'' \<and>
   sanitizeForLogging ''rawCall'' v = JStr ''[omitted]'' \<and>
   (key \<noteq> ''rawResponse'' \<and> key \<noteq> ''rawCall'' \<longrightarrow>
      (startsWith s ''data:image/'' \<longrightarrow>
         sanitizeForLogging key (JStr s) = JStr ''[base64 image omitted]'') \<and>
      (\<not> startsWith s ''data:image/'' \<and> length s > 10000 \<longrightarrow>
         sanitizeForLogging key (JStr s)
           = JStr (''[large string omitted: '' @ dec (length s) @ '' chars]'')) \<and>
      (\<not> startsWith s ''data:image/'' \<and> length s \<le> 10000 \<longrightarrow>
         sanitizeForLogging key (JStr s) = JStr s) \<and>
      (isBinary v \<longrightarrow> sanitizeForLogging key v = JStr ''[binary data omitted]'') \<and>
      (key' \<noteq> ''rawResponse'' \<and> key' \<noteq> ''rawCall'' \<longrightarrow>
         sanitizeForLogging key' v = sanitizeForLogging key v))"
  by (auto simp: sanitizeForLogging_def isBinary_def split: jsval.splits)

lemma dec_10001: "dec 10001 = ''10001''"
  by (simp add: dec.simps digit_char_def)

theorem full_content_redaction_witness:
  "sanitizeForLogging ''note'' (JStr ''data:image/png;base64,AAAA'') = JStr ''[base64 image omitted]'' \<and>
   sanitizeForLogging ''note'' (JStr (replicate 10001 (CHR ''x'')))
     = JStr ''[large string omitted: 10001 chars]'' \<and>
   sanitizeForLogging ''note'' (JStr ''short'') = JStr ''short'' \<and>
   sanitizeForLogging ''note'' (JBytes [1, 2, 3]) = JStr ''[binary data omitted]'' \<and>
   sanitizeForLogging ''text'' (JBytes [1, 2, 3]) = sanitizeForLogging ''note'' (JBytes [1, 2, 3])"
proof -
  have k: "''note'' \<noteq> ''rawResponse'' \<and> ''note'' \<noteq> ''rawCall''"
    and k': "''text'' \<noteq> ''rawResponse'' \<and> ''text'' \<noteq> ''rawCall''"
    by simp_all
  have a: "startsWith ''data:image/png;base64,AAAA'' ''data:image/''"
    by (simp add: startsWith_def)
  have b: "\<not> startsWith ''short'' ''data:image/''"
    by (simp add: startsWith_def)
  have c: "isBinary (JBytes [1, 2, 3])" by (simp add: isBinary_def)
  from full_content_redaction [of "JBytes [1, 2, 3]" "''note''" "''data:image/png;base64,AAAA''" "''text''"]
    full_content_redaction [of "JBytes [1, 2, 3]" "''note''" "replicate 10001 (CHR ''x'')" "''text''"]
    full_content_redaction [of "JBytes [1, 2, 3]" "''note''" "''short''" "''text''"]
    k k' a b c not_image_replicate [of 10001]
  show ?thesis by (simp add: dec_10001)
qed

text \<open>
  Against claim C5 as stated: a denylisted field whose value is a number is not
  replaced, and a remaining string of more than 1,000 characters that starts with
  \<open>data:image/\<close> gets a placeholder that does not state its length.
\<close>

theorem metadata_only_counterexample:
  "''text'' \<in> set contentKeys \<and>
   sanitizeMetadataOnly ''text'' (JNum 5) = JNum 5 \<and>
   ''note'' \<notin> set contentKeys \<and>
   length (''data:image/'' @ replicate 1000 (CHR ''x'')) > 1000 \<and>
   sanitizeMetadataOnly ''note'' (JStr (''data:image/'' @ replicate 1000 (CHR ''x'')))
     = JStr ''[base64 image omitted]''"
  by (simp add: sanitizeMetadataOnly_def contentKeys_def isBinary_def startsWith_def)

text \<open>
  Claim C5, amended. Under the metadata-only profile a field whose name is in the
  denylist is replaced, before any other rule, when its value is a string of length
  \<open>n\<close> (by \<open>"[content omitted: n chars]"\<close>, so a 50-character \<open>content\<close> field becomes
  \<open>"[content omitted: 50 chars]"\<close>), an array of \<open>n\<close> items (by
  \<open>"[content omitted: n items]"\<close>) or any other non-null object (by
  \<open>"[content omitted]"\<close>); a denylisted field with a number, a boolean, \<open>null\<close> or
  \<open>undefined\<close> is left as it is. Of the remaining string fields, one that starts with
  \<open>data:image/\<close> is replaced by \<open>"[base64 image omitted]"\<close>, any other one longer than
  1,000 characters by \<open>"[large string omitted: n chars]"\<close> with its length, and a shorter
  one is kept.
\<close>

theorem metadata_only_redaction:
  "(key \<in> set contentKeys \<longrightarrow>
      sanitizeMetadataOnly key (JStr s)
        = JStr (''[content omitted: '' @ dec (length s) @ '' chars]'') \<and>
      sanitizeMetadataOnly key (JArr xs)
        = JStr (''[content omitted: '' @ dec (length xs) @ '' items]'') \<and>
      sanitizeMetadataOnly key (JObj kvs) = JStr ''[content omitted]'' \<and>
      sanitizeMetadataOnly key (JBytes bs) = JStr ''[content omitted]'' \<and>
      sanitizeMetadataOnly key (JNum i) = JNum i \<and>
      sanitizeMetadataOnly key (JBool b) = JBool b \<and>
      sanitizeMetadataOnly key JNull = JNull \<and>
      sanitizeMetadataOnly key JUndefined = JUndefined) \<and>
   (key \<notin> set contentKeys \<longrightarrow>
      (startsWith s ''data:image/'' \<longrightarrow>
         sanitizeMetadataOnly key (JStr s) = JStr ''[base64 image omitted]'') \<and>
      (\<not> startsWith s ''data:image/'' \<and> length s > 1000 \<longrightarrow>
         sanitizeMetadataOnly key (JStr s)
           = JStr (''[large string omitted: '' @ dec (length s) @ '' chars]'')) \<and>
      (\<not> startsWith s ''data:image/'' \<and> length s \<le> 1000 \<longrightarrow>
         sanitizeMetadataOnly key (JStr s) = JStr s))"
  by (auto simp: sanitizeMetadataOnly_def isBinary_def)

lemma dec_50: "dec 50 = ''50''"
  by (simp add: dec.simps digit_char_def)

lemma dec_1001: "dec 1001 = ''1001''"
  by (simp add: dec.simps digit_char_def)

theorem metadata_only_redaction_witness:
  "sanitizeMetadataOnly ''content'' (JStr (replicate 50 (CHR ''x'')))
     = JStr ''[content omitted: 50 chars]'' \<and>
   sanitizeMetadataOnly ''messages'' (JArr [JNull, JNull]) = JStr ''[content omitted: 2 items]'' \<and>
   sanitizeMetadataOnly ''note'' (JStr (replicate 1001 (CHR ''x'')))
     = JStr ''[large string omitted: 1001 chars]''"
proof -
  have a: "''content'' \<in> set contentKeys" "''messages'' \<in> set contentKeys"
    "''note'' \<notin> set contentKeys"
    by (simp_all add: contentKeys_def)
  have d2: "dec (Suc (Suc 0)) = ''2''" by (simp add: dec.simps digit_char_def)
  from metadata_only_redaction [of "''content''" "replicate 50 (CHR ''x'')" "[]" "[]" "[]" 0 True]
    metadata_only_redaction [of "''messages''" "[]" "[JNull, JNull]" "[]" "[]" 0 True]
    metadata_only_redaction [of "''note''" "replicate 1001 (CHR ''x'')" "[]" "[]" "[]" 0 True]
    a not_image_replicate [of 1001]
  show ?thesis by (simp add: dec_50 dec_1001 d2)
qed

section \<open>Properties of the wrappers\<close>

lemma map_of_setAttr: "map_of (setAttr k v as) = (map_of as)(k \<mapsto> v)"
  by (induction as) auto

lemma setAttr_keys: "fst ` set (setAttr k v as) = insert k (fst ` set as)"
  by (simp add: dom_map_of_conv_image_fst [symmetric] map_of_setAttr)

lemma setAttrIf_keys:
  "fst ` set (setAttrIf c k v as) = (if c then insert k (fst ` set as) else fst ` set as)"
  by (simp add: setAttrIf_def setAttr_keys)

lemma providerInfo_keys:
  "fst ` set (providerInfoToAttributes info)
     \<subseteq> {''fallom.provider'', ''fallom.provider_id'', ''fallom.base_url'',
         ''fallom.ai_sdk_version'', ''fallom.provider_raw''}"
  by (auto simp: providerInfoToAttributes_def setAttrIf_keys split: if_splits)

lemma foldl_setAttr_keys:
  "fst ` set (foldl (\<lambda>as (k, v). setAttr k v as) base kvs) = fst ` set base \<union> fst ` set kvs"
proof (induction kvs arbitrary: base)
  case Nil
  then show ?case by simp
next
  case (Cons kv kvs)
  obtain k v where kv: "kv = (k, v)" by (cases kv)
  have "fst ` set (foldl (\<lambda>as (k, v). setAttr k v as) base (kv # kvs))
      = fst ` set (setAttr k v base) \<union> fst ` set kvs"
    using Cons.IH [of "setAttr k v base"] by (simp add: kv)
  also have "\<dots> = fst ` set base \<union> fst ` set (kv # kvs)"
    unfolding setAttr_keys by (simp add: kv)
  finally show ?case .
qed

lemma generateText_privacy_on_success:
  "\<exists>as. generateText_attributes typeError False params result modelId = Inr as \<and>
        ''fallom.raw.request'' \<notin> fst ` set as \<and> ''fallom.raw.response'' \<notin> fst ` set as \<and>
        (truthy (field result ''usage'') \<longrightarrow>
           map_of as ''fallom.raw.usage'' = Some (Json (field result ''usage'')))"
  by (simp add: generateText_attributes_def Let_def setAttrIf_def setAttr_keys map_of_setAttr)

lemma streamObject_privacy_on_success:
  "''fallom.raw.request'' \<notin> fst ` set (streamObject_attributes False params result info vals) \<and>
   ''fallom.raw.response'' \<notin> fst ` set (streamObject_attributes False params result info vals) \<and>
   (truthy (rawUsage vals) \<longrightarrow>
      map_of (streamObject_attributes False params result info vals) ''fallom.raw.usage''
        = Some (Json (rawUsage vals)))"
proof -
  have "''fallom.raw.request'' \<notin> fst ` set (providerInfoToAttributes info)"
    "''fallom.raw.response'' \<notin> fst ` set (providerInfoToAttributes info)"
    using providerInfo_keys [of info] by auto
  then show ?thesis
    by (auto simp: streamObject_attributes_def Let_def setAttrIf_keys setAttr_keys
          foldl_setAttr_keys map_of_setAttr setAttrIf_def)
qed

lemma sibling_error_spans_omit_request:
  "''fallom.raw.request'' \<notin> fst ` set (sibling_error_attributes method)"
  by (simp add: sibling_error_attributes_def)

lemma generateText_error_span_always_has_request:
  "generateText_span typeError True capture arg0 (Inl err)
     = Some (generateText_error_span (jor arg0 (JObj [])) err) \<and>
   ''fallom.raw.request'' \<in> fst ` set (sr_attributes (generateText_error_span params err))"
  by (simp add: generateText_span_def generateText_error_span_def Let_def)

text \<open>
  Claim C7 says that with content capture disabled no span carries
  \<open>fallom.raw.request\<close> or \<open>fallom.raw.response\<close>, while usage is still recorded.
  The spans of successful calls do so, and so do the error spans of the sibling wrappers
  (the lemmas above). The error span of \<open>generateText\<close> does not: with capture
  disabled and a call that the provider rejects, it still carries the prompt under
  \<open>fallom.raw.request\<close>.
\<close>

theorem generateText_error_span_leaks_request:
  "generateText_span typeError True False
     (JObj [(''model'', JStr ''gpt-4o''), (''prompt'', JStr ''my secret prompt'')])
     (Inl (JObj [(''message'', JStr ''rate limited'')]))
   = Some \<lparr>sr_name = ''generateText'', sr_kind = ''llm'', sr_model = JStr ''gpt-4o'',
           sr_status = ''ERROR'', sr_error_message = JStr ''rate limited'',
           sr_attributes =
             [(''fallom.sdk_version'', Lit (JStr ''2'')),
              (''fallom.method'', Lit (JStr ''generateText'')),
              (''fallom.raw.request'',
                 Json (JObj [(''prompt'', JStr ''my secret prompt''),
                             (''messages'', JUndefined),
                             (''system'', JUndefined),
                             (''model'', JStr ''gpt-4o'')]))]\<rparr>"
  by (simp add: generateText_span_def generateText_error_span_def paramsModelId_def jor_def)


section \<open>Properties of prompt rendering\<close>

lemma matchPlaceholder_consumes:
  "matchPlaceholder s = Some (g, rest) \<Longrightarrow> s = ''{{'' @ g @ ''}}'' @ rest"
proof (cases s rule: matchPlaceholder.cases)
  case (1 a b t)
  assume m: "matchPlaceholder s = Some (g, rest)"
  define t1 where "t1 = dropWhile isSpaceChar t"
  define t2 where "t2 = dropWhile isWordChar t1"
  define t3 where "t3 = dropWhile isSpaceChar t2"
  have t: "t = takeWhile isSpaceChar t @ takeWhile isWordChar t1 @ takeWhile isSpaceChar t2 @ t3"
    by (simp add: t1_def t2_def t3_def)
  from m 1 have ab: "a = CHR ''{''" "b = CHR ''{''"
    and g: "g = takeWhile isSpaceChar t @ takeWhile isWordChar t1 @ takeWhile isSpaceChar t2"
    and t3: "t3 = ''}}'' @ rest"
    by (auto simp: Let_def t1_def t2_def t3_def split: if_splits list.splits)
  show ?thesis
    using 1 ab t g t3 by (metis append.assoc append_Cons append_Nil)
qed simp_all

lemma replacePlaceholders_keep:
  "(\<And>m g. f m g = m) \<Longrightarrow> replacePlaceholders f s = s"
proof (induction f s rule: replacePlaceholders.induct)
  case (1 f)
  then show ?case by simp
next
  case (2 f c t)
  show ?case
  proof (cases "matchPlaceholder (c # t)")
    case None
    with 2 show ?thesis by simp
  next
    case (Some p)
    obtain g rest where p: "p = (g, rest)" by (cases p)
    from Some p have m: "matchPlaceholder (c # t) = Some (g, rest)" by simp
    have ih: "replacePlaceholders f rest = rest"
      by (rule 2(2) [OF m refl 2(3)])
    have "replacePlaceholders f (c # t) = f (''{{'' @ g @ ''}}'') g @ replacePlaceholders f rest"
      by (simp only: replacePlaceholders.simps m option.case prod.case)
    also have "\<dots> = (''{{'' @ g @ ''}}'') @ rest"
      by (simp only: 2(3) ih)
    also have "\<dots> = c # t"
      using matchPlaceholder_consumes [OF m] by simp
    finally show ?thesis .
  qed
qed

lemma replaceVariables_absent_map: "replaceVariables template None = template"
  by (simp add: replaceVariables_def)

lemma replaceVariables_test_spaces:
  "replaceVariables ''Hello {{ name }}, your id is {{id}}!'' (Some [(''name'', JStr ''John'')])
     = ''Hello John, your id is {{id}}!''"
  by (simp add: replaceVariables_def getProperty_def objectPrototype_def trim_def
        isSpaceChar_def isWordChar_def)

lemma replaceVariables_test_values:
  "replaceVariables ''Count: {{count}}, Active: {{active}}''
     (Some [(''count'', JNum 42), (''active'', JBool True)])
     = ''Count: 42, Active: true''"
  by (simp add: replaceVariables_def getProperty_def objectPrototype_def trim_def
        isSpaceChar_def isWordChar_def dec.simps digit_char_def)

text \<open>
  Claim C9 says that a placeholder whose name is missing from the map is left in place.
  That holds for the names of the tests above, and whenever the replacer keeps the match
  (\<open>replacePlaceholders_keep\<close>). It fails for a name that every object inherits from
  \<open>Object.prototype\<close>: \<open>"constructor" in variables\<close> is true although the map has no
  such key, and the placeholder is replaced by the text of a built-in function.
\<close>

theorem replaceVariables_inherited_name:
  "replaceVariables ''Hello {{constructor}}!'' (Some [(''name'', JStr ''John'')])
     = ''Hello function Object() { [native code] }!''"
  by (simp add: replaceVariables_def getProperty_def objectPrototype_def trim_def
        isSpaceChar_def isWordChar_def)

end
